theory Spec2Isabelle
  imports Complex_Main "HOL-Library.AList"
begin

section \<open>Token-bucket rate limiter\<close>

text \<open>
  \<^verbatim>\<open>api/middleware/rate_limit.py\<close>, class \<^verbatim>\<open>RateLimiter\<close> (the copy under
  \<^verbatim>\<open>about-us-scraper-service/\<close> is the same code). The dictionary
  \<^verbatim>\<open>self.tokens\<close> maps a key to the pair (tokens, last_update). The reading of
  \<^verbatim>\<open>time.time()\<close> is an argument of the model; Python floats are idealised as reals.
\<close>

record RateLimiter =
  rate :: real
  burst_limit :: int
  tokens :: "string \<Rightarrow> (real \<times> real) option"

definition RateLimiter_init :: "int \<Rightarrow> int \<Rightarrow> RateLimiter" where
  "RateLimiter_init requests_per_minute burst =
     \<lparr>rate = real_of_int requests_per_minute / 60, burst_limit = burst, tokens = Map.empty\<rparr>"

definition get_tokens :: "RateLimiter \<Rightarrow> string \<Rightarrow> real \<Rightarrow> real \<times> real" where
  "get_tokens self key now =
     (case tokens self key of
        None \<Rightarrow> (real_of_int (burst_limit self), now)
      | Some (toks, last_update) \<Rightarrow>
          (let time_passed = now - last_update;
               new_tokens = min (real_of_int (burst_limit self)) (toks + time_passed * rate self)
           in (new_tokens, now)))"

definition update_tokens :: "RateLimiter \<Rightarrow> string \<Rightarrow> real \<Rightarrow> real \<Rightarrow> RateLimiter" where
  "update_tokens self key toks last_update =
     self\<lparr>tokens := (tokens self)(key \<mapsto> (toks, last_update))\<rparr>"

definition is_allowed :: "RateLimiter \<Rightarrow> string \<Rightarrow> real \<Rightarrow> bool \<times> RateLimiter" where
  "is_allowed self key clock =
     (let (toks, now) = get_tokens self key clock
      in if toks \<ge> 1 then (True, update_tokens self key (toks - 1) now)
         else (False, self))"

text \<open>
  A caller issuing one \<^verbatim>\<open>is_allowed\<close> call per clock reading of the list, for the same
  key; it collects the answers and returns the limiter as the last call left it.
\<close>

fun is_allowed_seq :: "RateLimiter \<Rightarrow> string \<Rightarrow> real list \<Rightarrow> bool list \<times> RateLimiter" where
  "is_allowed_seq self key [] = ([], self)"
| "is_allowed_seq self key (clock # clocks) =
     (let (ok, self') = is_allowed self key clock;
          (oks, self'') = is_allowed_seq self' key clocks
      in (ok # oks, self''))"

text \<open>A limiter in which one key has half a token left, recorded at time 100.\<close>

definition drained_limiter :: RateLimiter where
  "drained_limiter = update_tokens (RateLimiter_init 60 10) ''10.0.0.1'' (1 / 2) 100"


section \<open>Retry with exponential backoff\<close>

text \<open>
  \<^verbatim>\<open>api/utils/retry.py\<close> (\<^verbatim>\<open>RetryConfig\<close>, \<^verbatim>\<open>calculate_delay\<close>, \<^verbatim>\<open>retry_async\<close>) and
  \<^verbatim>\<open>about-us-scraper-service/api/utils/retry.py\<close> (the decorator \<^verbatim>\<open>retryable\<close>, whose
  keyword arguments are the fields of the same configuration). The delays and the base
  are floats, as the signatures say, idealised as reals. The
  wrapped operation is a sequence of outcomes, \<open>func 0\<close> the outcome of its next call;
  the random generator is a sequence of draws of \<^verbatim>\<open>random.random()\<close>, \<open>rnd 0\<close> the next.
  The loops return what the call returns or raises together with the list of the
  delays they slept, in order.
\<close>

record RetryConfig =
  max_attempts :: int
  initial_delay :: real
  max_delay :: real
  exponential_base :: real
  jitter :: bool

datatype 'a outcome = Returns 'a | RaisesRetryable string | RaisesOther string

datatype retry_error =
    RetryableError string
  | OtherError string
  | ZeroDivisionError
  | OverflowError
  | RaiseNoneTypeError
  | AssertionError

text \<open>
  Python's \<^verbatim>\<open>x ** n\<close> for a float \<open>x\<close> and an integer \<open>n\<close>. It raises
  \<^verbatim>\<open>ZeroDivisionError\<close> for zero to a negative power, and \<^verbatim>\<open>OverflowError\<close> when the
  result leaves the range of the floats: a magnitude of \<open>2 ^ 1024 - 2 ^ 970\<close> or more
  rounds to infinity. Within the range the result is idealised as the real power.
\<close>

definition overflow_threshold :: real where
  "overflow_threshold = 2 ^ 1024 - 2 ^ 970"

definition py_pow :: "real \<Rightarrow> int \<Rightarrow> retry_error + real" where
  "py_pow x n =
     (if n < 0 \<and> x = 0 then Inl ZeroDivisionError
      else
        (let r = (if 0 \<le> n then x ^ nat n else 1 / x ^ nat (- n))
         in if overflow_threshold \<le> \<bar>r\<bar> then Inl OverflowError else Inr r))"

text \<open>\<^verbatim>\<open>random.uniform(a, b)\<close> is \<^verbatim>\<open>a + (b - a) * random()\<close>.\<close>

definition uniform :: "real \<Rightarrow> real \<Rightarrow> real \<Rightarrow> real" where
  "uniform a b u = a + (b - a) * u"

definition calculate_delay :: "int \<Rightarrow> RetryConfig \<Rightarrow> real \<Rightarrow> retry_error + real" where
  "calculate_delay attempt config u =
     (case py_pow (exponential_base config) (attempt - 1) of
        Inl e \<Rightarrow> Inl e
      | Inr p \<Rightarrow>
          (let delay = min (initial_delay config * p) (max_delay config)
           in if jitter config
              then Inr (delay * (1 + uniform (- (1 / 4)) (1 / 4) u))
              else Inr delay))"

text \<open>
  The loop of \<^verbatim>\<open>retry_async\<close> over \<^verbatim>\<open>range(1, config.max_attempts + 1)\<close>, followed by
  the final \<^verbatim>\<open>raise last_error\<close>.
\<close>

fun retry_async_loop ::
  "RetryConfig \<Rightarrow> (nat \<Rightarrow> 'a outcome) \<Rightarrow> (nat \<Rightarrow> real) \<Rightarrow> int list \<Rightarrow> retry_error option
   \<Rightarrow> (retry_error + 'a) \<times> real list" where
  "retry_async_loop config func rnd [] last_error =
     (case last_error of None \<Rightarrow> (Inl RaiseNoneTypeError, []) | Some e \<Rightarrow> (Inl e, []))"
| "retry_async_loop config func rnd (attempt # rest) last_error =
     (case func 0 of
        Returns r \<Rightarrow> (Inr r, [])
      | RaisesOther m \<Rightarrow> (Inl (OtherError m), [])
      | RaisesRetryable m \<Rightarrow>
          if attempt = max_attempts config then (Inl (RetryableError m), [])
          else
            (case calculate_delay attempt config (rnd 0) of
               Inl e \<Rightarrow> (Inl e, [])
             | Inr delay \<Rightarrow>
                 (let rnd' = (if jitter config then rnd \<circ> Suc else rnd);
                      (res, sleeps) =
                        retry_async_loop config (func \<circ> Suc) rnd' rest (Some (RetryableError m))
                  in (res, delay # sleeps))))"

definition retry_async ::
  "(nat \<Rightarrow> 'a outcome) \<Rightarrow> RetryConfig \<Rightarrow> (nat \<Rightarrow> real) \<Rightarrow> (retry_error + 'a) \<times> real list" where
  "retry_async func config rnd = retry_async_loop config func rnd [1..max_attempts config] None"

text \<open>
  The \<^verbatim>\<open>wrapper\<close> that \<^verbatim>\<open>retryable\<close> returns: the loop over \<^verbatim>\<open>range(max_attempts)\<close>,
  followed by the assertion and the final \<^verbatim>\<open>raise last_exception\<close>. An exception outside
  \<^verbatim>\<open>retryable_exceptions\<close> is not caught, and neither is one that the computation of the
  delay raises inside the handler.
\<close>

fun retryable_loop ::
  "RetryConfig \<Rightarrow> (nat \<Rightarrow> 'a outcome) \<Rightarrow> (nat \<Rightarrow> real) \<Rightarrow> nat list \<Rightarrow> retry_error option
   \<Rightarrow> (retry_error + 'a) \<times> real list" where
  "retryable_loop config func rnd [] last_exception =
     (case last_exception of None \<Rightarrow> (Inl AssertionError, []) | Some e \<Rightarrow> (Inl e, []))"
| "retryable_loop config func rnd (attempt # rest) last_exception =
     (case func 0 of
        Returns r \<Rightarrow> (Inr r, [])
      | RaisesOther m \<Rightarrow> (Inl (OtherError m), [])
      | RaisesRetryable m \<Rightarrow>
          if int attempt = max_attempts config - 1 then (Inl (RetryableError m), [])
          else
            (case py_pow (exponential_base config) (int attempt) of
               Inl e \<Rightarrow> (Inl e, [])
             | Inr p \<Rightarrow>
                 (let delay = min (initial_delay config * p) (max_delay config);
                      delay' = (if jitter config then delay * (1 / 2 + rnd 0) else delay);
                      rnd' = (if jitter config then rnd \<circ> Suc else rnd);
                      (res, sleeps) =
                        retryable_loop config (func \<circ> Suc) rnd' rest
                          (Some (RetryableError m))
                  in (res, delay' # sleeps))))"

definition retryable ::
  "RetryConfig \<Rightarrow> (nat \<Rightarrow> 'a outcome) \<Rightarrow> (nat \<Rightarrow> real) \<Rightarrow> (retry_error + 'a) \<times> real list" where
  "retryable config func rnd =
     retryable_loop config func rnd [0..<nat (max_attempts config)] None"

text \<open>An operation that fails with a retryable error at every call.\<close>

definition always_failing :: "nat \<Rightarrow> unit outcome" where
  "always_failing i = RaisesRetryable ''timeout''"

definition test_policy :: "bool \<Rightarrow> RetryConfig" where
  "test_policy j = \<lparr>max_attempts = 4, initial_delay = 1, max_delay = 3,
                     exponential_base = 2, jitter = j\<rparr>"


section \<open>Cursor pagination\<close>

text \<open>
  JSON values as \<^verbatim>\<open>json.loads\<close> returns them. A float is kept as the text that
  denotes it; a dictionary is the list of its items.
\<close>

datatype json =
    JNull
  | JBool bool
  | JInt int
  | JFloat string
  | JString string
  | JArray "json list"
  | JObject "(string \<times> json) list"

text \<open>
  The functions of Python's standard library that the pagination modules call:
  \<^verbatim>\<open>base64.b64decode\<close>, \<^verbatim>\<open>bytes.decode\<close>, \<^verbatim>\<open>json.loads\<close>, \<^verbatim>\<open>json.dumps\<close>,
  \<^verbatim>\<open>str.encode\<close> and \<^verbatim>\<open>base64.b64encode\<close> (with the \<^verbatim>\<open>decode\<close> of its ASCII result).
  They are not code of the repository, so the model takes them as a parameter; a function
  that can raise returns \<open>Inl\<close> of the exception's text.
\<close>

record stdlib =
  b64decode :: "string \<Rightarrow> string + string"
  bytes_decode :: "string \<Rightarrow> string + string"
  json_loads :: "string \<Rightarrow> string + json"
  json_dumps :: "json \<Rightarrow> string"
  str_encode :: "string \<Rightarrow> string"
  b64encode :: "string \<Rightarrow> string"

datatype pagination_error = PaginationError string | TypeError string

fun type_name :: "json \<Rightarrow> string" where
  "type_name JNull = ''NoneType''"
| "type_name (JBool b) = ''bool''"
| "type_name (JInt n) = ''int''"
| "type_name (JFloat f) = ''float''"
| "type_name (JString s) = ''str''"
| "type_name (JArray xs) = ''list''"
| "type_name (JObject kvs) = ''dict''"

text \<open>\<^verbatim>\<open>data.get(key, default)\<close>: an \<^verbatim>\<open>AttributeError\<close> (\<open>Inl\<close>) unless \<open>data\<close> is a dictionary.\<close>

fun dict_get :: "json \<Rightarrow> string \<Rightarrow> json \<Rightarrow> string + json" where
  "dict_get (JObject kvs) key dflt =
     Inr (case map_of kvs key of None \<Rightarrow> dflt | Some v \<Rightarrow> v)"
| "dict_get v key dflt =
     Inl (CHR 0x27 # type_name v @ [CHR 0x27] @ '' object has no attribute '' @
          [CHR 0x27] @ ''get'' @ [CHR 0x27])"

text \<open>
  The values Python adds to an integer and takes as slice bounds: integers, and the
  booleans as 1 and 0. Anything else is a \<^verbatim>\<open>TypeError\<close> there.
\<close>

fun as_index :: "json \<Rightarrow> int option" where
  "as_index (JInt n) = Some n"
| "as_index (JBool b) = Some (if b then 1 else 0)"
| "as_index v = None"

text \<open>Python's \<^verbatim>\<open>xs[start:stop]\<close>: a bound below zero counts from the end, and both are clipped.\<close>

definition slice_bound :: "nat \<Rightarrow> int \<Rightarrow> nat" where
  "slice_bound n i = (if i < 0 then nat (max (i + int n) 0) else min (nat i) n)"

definition py_slice :: "'a list \<Rightarrow> int \<Rightarrow> int \<Rightarrow> 'a list" where
  "py_slice xs start stop =
     (let s = slice_bound (length xs) start; e = slice_bound (length xs) stop
      in if s < e then take (e - s) (drop s xs) else [])"

subsection \<open>The service's module: \<^verbatim>\<open>about-us-scraper-service/api/utils/pagination.py\<close>\<close>

record 'a PaginationResult =
  items :: "'a list"
  has_more :: bool
  next_cursor :: "string option"

definition encode_cursor :: "stdlib \<Rightarrow> json \<Rightarrow> string" where
  "encode_cursor lib data =
     (let json_str = json_dumps lib data in b64encode lib (str_encode lib json_str))"

definition decode_cursor :: "stdlib \<Rightarrow> string \<Rightarrow> pagination_error + json" where
  "decode_cursor lib cursor =
     (case b64decode lib cursor of
        Inl e \<Rightarrow> Inl (PaginationError (''Invalid cursor: '' @ e))
      | Inr bs \<Rightarrow>
          (case bytes_decode lib bs of
             Inl e \<Rightarrow> Inl (PaginationError (''Invalid cursor: '' @ e))
           | Inr json_str \<Rightarrow>
               (case json_loads lib json_str of
                  Inl e \<Rightarrow> Inl (PaginationError (''Invalid cursor: '' @ e))
                | Inr data \<Rightarrow> Inr data)))"

text \<open>The first block of \<^verbatim>\<open>Paginator.paginate\<close>: the starting offset.\<close>

definition starting_offset :: "stdlib \<Rightarrow> string option \<Rightarrow> pagination_error + json" where
  "starting_offset lib cursor =
     (case cursor of
        None \<Rightarrow> Inr (JInt 0)
      | Some c \<Rightarrow>
          if c = [] then Inr (JInt 0)
          else
            (case decode_cursor lib c of
               Inl e \<Rightarrow> Inl e
             | Inr cursor_data \<Rightarrow>
                 (case dict_get cursor_data ''offset'' (JInt 0) of
                    Inl e \<Rightarrow> Inl (PaginationError (''Invalid cursor: '' @ e))
                  | Inr v \<Rightarrow> Inr v)))"

definition paginate ::
  "stdlib \<Rightarrow> int \<Rightarrow> 'a list \<Rightarrow> string option \<Rightarrow> pagination_error + 'a PaginationResult" where
  "paginate lib items_per_page xs cursor =
     (case starting_offset lib cursor of
        Inl e \<Rightarrow> Inl e
      | Inr offset \<Rightarrow>
          (case as_index offset of
             None \<Rightarrow> Inl (TypeError (type_name offset))
           | Some start \<Rightarrow>
               (let end' = start + items_per_page;
                    page_items = py_slice xs start end';
                    more' = end' < int (length xs);
                    nxt = (if more'
                           then Some (encode_cursor lib (JObject [(''offset'', JInt end')]))
                           else None)
                in Inr \<lparr>items = page_items, has_more = more', next_cursor = nxt\<rparr>)))"

subsection \<open>The module \<^verbatim>\<open>api/utils/pagination.py\<close>\<close>

text \<open>
  The fields of \<^verbatim>\<open>PaginationMeta\<close> and \<^verbatim>\<open>PaginatedResult\<close>; where a name is already a
  field above it carries a prefix.
\<close>

record PaginationMeta =
  total_count :: int
  remaining_count :: int
  meta_has_more :: bool
  meta_next_cursor :: "string option"
  previous_cursor :: "string option"

record 'a PaginatedResult =
  result_items :: "'a list"
  result_total_count :: int
  result_limit :: int
  result_cursor :: "string option"
  pagination :: PaginationMeta

text \<open>
  The block that \<^verbatim>\<open>_calculate_pagination\<close> and \<^verbatim>\<open>paginate_items\<close> both contain: decode
  the cursor, and fall back to 0 on any exception.
\<close>

definition start_index_of :: "stdlib \<Rightarrow> string option \<Rightarrow> json" where
  "start_index_of lib cur =
     (case cur of
        None \<Rightarrow> JInt 0
      | Some c \<Rightarrow>
          if c = [] then JInt 0
          else
            (case b64decode lib c of
               Inl e \<Rightarrow> JInt 0
             | Inr bs \<Rightarrow>
                 (case bytes_decode lib bs of
                    Inl e \<Rightarrow> JInt 0
                  | Inr json_str \<Rightarrow>
                      (case json_loads lib json_str of
                         Inl e \<Rightarrow> JInt 0
                       | Inr cursor_data \<Rightarrow>
                           (case dict_get cursor_data ''offset'' (JInt 0) of
                              Inl e \<Rightarrow> JInt 0
                            | Inr v \<Rightarrow> v)))))"

definition calculate_pagination ::
  "stdlib \<Rightarrow> int \<Rightarrow> int \<Rightarrow> string option \<Rightarrow> pagination_error + PaginationMeta" where
  "calculate_pagination lib total' limit cur =
     (case as_index (start_index_of lib cur) of
        None \<Rightarrow> Inl (TypeError (type_name (start_index_of lib cur)))
      | Some start_index \<Rightarrow>
          (let remaining = max 0 (total' - (start_index + limit));
               more' = (remaining > 0);
               nxt = (if more'
                      then Some (b64encode lib (str_encode lib
                             (json_dumps lib (JObject [(''offset'', JInt (start_index + limit))]))))
                      else None);
               prev = (if start_index > 0
                       then Some (b64encode lib (str_encode lib
                              (json_dumps lib (JObject [(''offset'', JInt (max 0 (start_index - limit)))]))))
                       else None)
           in Inr \<lparr>total_count = total', remaining_count = remaining, meta_has_more = more',
                    meta_next_cursor = nxt, previous_cursor = prev\<rparr>))"

definition paginate_items ::
  "stdlib \<Rightarrow> 'a list \<Rightarrow> int \<Rightarrow> string option \<Rightarrow> pagination_error + 'a PaginatedResult" where
  "paginate_items lib xs limit cur =
     (let total' = int (length xs);
          start_json = start_index_of lib cur
      in case as_index start_json of
           None \<Rightarrow> Inl (TypeError (type_name start_json))
         | Some start_index \<Rightarrow>
             (let paginated_items = py_slice xs start_index (start_index + limit)
              in case calculate_pagination lib total' limit cur of
                   Inl e \<Rightarrow> Inl e
                 | Inr meta \<Rightarrow>
                     Inr \<lparr>result_items = paginated_items, result_total_count = total',
                          result_limit = limit, result_cursor = cur, pagination = meta\<rparr>))"

text \<open>\<^verbatim>\<open>decode_cursor\<close> of this module returns the pair (offset, is_valid) and never raises.\<close>

definition decode_cursor_api :: "stdlib \<Rightarrow> string option \<Rightarrow> json \<times> bool" where
  "decode_cursor_api lib cur =
     (case cur of
        None \<Rightarrow> (JInt 0, True)
      | Some c \<Rightarrow>
          if c = [] then (JInt 0, True)
          else
            (case b64decode lib c of
               Inl e \<Rightarrow> (JInt 0, False)
             | Inr bs \<Rightarrow>
                 (case bytes_decode lib bs of
                    Inl e \<Rightarrow> (JInt 0, False)
                  | Inr json_str \<Rightarrow>
                      (case json_loads lib json_str of
                         Inl e \<Rightarrow> (JInt 0, False)
                       | Inr cursor_data \<Rightarrow>
                           (case dict_get cursor_data ''offset'' (JInt 0) of
                              Inl e \<Rightarrow> (JInt 0, False)
                            | Inr offset \<Rightarrow> (offset, True))))))"

subsection \<open>A client that follows the cursors\<close>

text \<open>
  The loop of a client that asks for the first page without a cursor and then for the
  page of each \<^verbatim>\<open>next_cursor\<close> until \<^verbatim>\<open>has_more\<close> is false, collecting the pages. It need
  not terminate: a run that never ends is the value \<open>None\<close>.
\<close>

partial_function (option) follow_cursors ::
  "(string option \<Rightarrow> 'e + 'a list \<times> bool \<times> string option) \<Rightarrow> string option \<Rightarrow> 'a list list
   \<Rightarrow> ('e + 'a list list) option" where
  "follow_cursors fetch cur pages =
     (case fetch cur of
        Inl e \<Rightarrow> Some (Inl e)
      | Inr (page, more', nxt) \<Rightarrow>
          if more' then follow_cursors fetch nxt (pages @ [page])
          else Some (Inr (pages @ [page])))"

definition fetch_page ::
  "stdlib \<Rightarrow> int \<Rightarrow> 'a list \<Rightarrow> string option \<Rightarrow> pagination_error + 'a list \<times> bool \<times> string option" where
  "fetch_page lib items_per_page xs cur =
     (case paginate lib items_per_page xs cur of
        Inl e \<Rightarrow> Inl e
      | Inr r \<Rightarrow> Inr (items r, has_more r, next_cursor r))"

definition fetch_page_api ::
  "stdlib \<Rightarrow> int \<Rightarrow> 'a list \<Rightarrow> string option \<Rightarrow> pagination_error + 'a list \<times> bool \<times> string option" where
  "fetch_page_api lib limit xs cur =
     (case paginate_items lib xs limit cur of
        Inl e \<Rightarrow> Inl e
      | Inr r \<Rightarrow>
          Inr (result_items r, meta_has_more (pagination r), meta_next_cursor (pagination r)))"

text \<open>
  What the paginator needs of the library for the cursor of an offset: the encoded cursor
  is not the empty string, and decoding it gives back the dictionary with that offset.
\<close>

definition cursor_roundtrip :: "stdlib \<Rightarrow> int \<Rightarrow> bool" where
  "cursor_roundtrip lib n =
     (let c = b64encode lib (str_encode lib (json_dumps lib (JObject [(''offset'', JInt n)])))
      in c \<noteq> []
         \<and> (case b64decode lib c of
               Inl e \<Rightarrow> False
             | Inr bs \<Rightarrow>
                 (case bytes_decode lib bs of
                    Inl e \<Rightarrow> False
                  | Inr json_str \<Rightarrow> json_loads lib json_str = Inr (JObject [(''offset'', JInt n)]))))"

subsection \<open>An executable instance of the library\<close>

text \<open>
  The library functions as CPython computes them, for evaluating the paginator on
  concrete cursors. Base64 decoding is \<^verbatim>\<open>binascii.a2b_base64\<close> in its default
  (non-strict) mode: characters outside the alphabet are skipped, and a pad character
  ends the data once the quad is complete. The JSON reader covers objects, arrays,
  strings without escape sequences, integers and the three literals, and the byte
  decoder covers ASCII; the instance reports anything beyond them as an error, and it is
  used on cursors within them only.
\<close>

definition digit_char :: "nat \<Rightarrow> char" where
  "digit_char d = char_of (48 + d)"

function str_nat :: "nat \<Rightarrow> string" where
  "str_nat n = (if n < 10 then [digit_char n] else str_nat (n div 10) @ [digit_char (n mod 10)])"
  by pat_completeness auto
termination
  by (relation "measure id") auto

declare str_nat.simps [simp del]

definition str_int :: "int \<Rightarrow> string" where
  "str_int i = (if i < 0 then CHR ''-'' # str_nat (nat (- i)) else str_nat (nat i))"

definition b64_char :: "nat \<Rightarrow> char" where
  "b64_char i =
     (if i < 26 then char_of (65 + i)
      else if i < 52 then char_of (71 + i)
      else if i < 62 then char_of (i - 4)
      else if i = 62 then CHR ''+'' else CHR ''/'')"

definition b64_index :: "char \<Rightarrow> nat option" where
  "b64_index c =
     (let n = (of_char c :: nat)
      in if 65 \<le> n \<and> n \<le> 90 then Some (n - 65)
         else if 97 \<le> n \<and> n \<le> 122 then Some (n - 71)
         else if 48 \<le> n \<and> n \<le> 57 then Some (n + 4)
         else if c = CHR ''+'' then Some 62
         else if c = CHR ''/'' then Some 63
         else None)"

fun py_b64encode :: "string \<Rightarrow> string" where
  "py_b64encode [] = []"
| "py_b64encode [a] =
     (let x = (of_char a :: nat)
      in [b64_char (x div 4), b64_char ((x mod 4) * 16), CHR ''='', CHR ''=''])"
| "py_b64encode [a, b] =
     (let x = (of_char a :: nat); y = (of_char b :: nat)
      in [b64_char (x div 4), b64_char ((x mod 4) * 16 + y div 16),
          b64_char ((y mod 16) * 4), CHR ''=''])"
| "py_b64encode (a # b # c # rest) =
     (let x = (of_char a :: nat); y = (of_char b :: nat); z = (of_char c :: nat)
      in [b64_char (x div 4), b64_char ((x mod 4) * 16 + y div 16),
          b64_char ((y mod 16) * 4 + z div 64), b64_char (z mod 64)] @ py_b64encode rest)"

fun a2b_base64 :: "string \<Rightarrow> nat \<Rightarrow> nat \<Rightarrow> nat \<Rightarrow> string \<Rightarrow> string + string" where
  "a2b_base64 [] quad_pos leftchar pads out =
     (if quad_pos = 0 then Inr out
      else if quad_pos = 1 then Inl ''Invalid base64-encoded string''
      else Inl ''Incorrect padding'')"
| "a2b_base64 (ch # rest) quad_pos leftchar pads out =
     (if ch = CHR ''='' then
        (if 2 \<le> quad_pos \<and> 4 \<le> quad_pos + (pads + 1) then Inr out
         else a2b_base64 rest quad_pos leftchar (if 2 \<le> quad_pos then pads + 1 else pads) out)
      else
        (case b64_index ch of
           None \<Rightarrow> a2b_base64 rest quad_pos leftchar pads out
         | Some v \<Rightarrow>
             if quad_pos = 0 then a2b_base64 rest 1 v 0 out
             else if quad_pos = 1
               then a2b_base64 rest 2 (v mod 16) 0 (out @ [char_of (leftchar * 4 + v div 16)])
             else if quad_pos = 2
               then a2b_base64 rest 3 (v mod 4) 0 (out @ [char_of (leftchar * 16 + v div 4)])
             else a2b_base64 rest 0 0 0 (out @ [char_of (leftchar * 64 + v)])))"

definition is_ascii :: "string \<Rightarrow> bool" where
  "is_ascii s = list_all (\<lambda>c. (of_char c :: nat) < 128) s"

definition py_b64decode :: "string \<Rightarrow> string + string" where
  "py_b64decode s =
     (if is_ascii s then a2b_base64 s 0 0 0 []
      else Inl ''string argument should contain only ASCII characters'')"

definition py_bytes_decode :: "string \<Rightarrow> string + string" where
  "py_bytes_decode bs =
     (if is_ascii bs then Inr bs else Inl ''codec cannot decode byte'')"

fun escape_string :: "string \<Rightarrow> string" where
  "escape_string [] = []"
| "escape_string (c # cs) =
     (if c = CHR 0x22 then [CHR 0x5C, CHR 0x22]
      else if c = CHR 0x5C then [CHR 0x5C, CHR 0x5C]
      else [c]) @ escape_string cs"

fun py_json_dumps :: "json \<Rightarrow> string"
  and dumps_elems :: "json list \<Rightarrow> string"
  and dumps_members :: "(string \<times> json) list \<Rightarrow> string" where
  "py_json_dumps JNull = ''null''"
| "py_json_dumps (JBool b) = (if b then ''true'' else ''false'')"
| "py_json_dumps (JInt n) = str_int n"
| "py_json_dumps (JFloat f) = f"
| "py_json_dumps (JString s) = [CHR 0x22] @ escape_string s @ [CHR 0x22]"
| "py_json_dumps (JArray xs) = ''['' @ dumps_elems xs @ '']''"
| "py_json_dumps (JObject kvs) = ''{'' @ dumps_members kvs @ ''}''"
| "dumps_elems [] = []"
| "dumps_elems [x] = py_json_dumps x"
| "dumps_elems (x # y # ys) = py_json_dumps x @ '', '' @ dumps_elems (y # ys)"
| "dumps_members [] = []"
| "dumps_members [(k, v)] = [CHR 0x22] @ escape_string k @ [CHR 0x22] @ '': '' @ py_json_dumps v"
| "dumps_members ((k, v) # kv # kvs) =
     [CHR 0x22] @ escape_string k @ [CHR 0x22] @ '': '' @ py_json_dumps v @ '', ''
     @ dumps_members (kv # kvs)"

definition is_ws :: "char \<Rightarrow> bool" where
  "is_ws c = (c = CHR '' '' \<or> c = CHR 0x09 \<or> c = CHR 0x0A \<or> c = CHR 0x0D)"

definition skip_ws :: "string \<Rightarrow> string" where
  "skip_ws s = dropWhile is_ws s"

definition is_digit :: "char \<Rightarrow> bool" where
  "is_digit c = (48 \<le> (of_char c :: nat) \<and> (of_char c :: nat) \<le> 57)"

definition nat_of_digits :: "string \<Rightarrow> nat" where
  "nat_of_digits ds = foldl (\<lambda>acc c. 10 * acc + (of_char c - 48)) 0 ds"

text \<open>A JSON integer: an optional minus sign, then 0 or a digit string without leading zero.\<close>

definition parse_int :: "string \<Rightarrow> (json \<times> string) option" where
  "parse_int s =
     (let (neg, s1) = (case s of c # cs \<Rightarrow> if c = CHR ''-'' then (True, cs) else (False, s)
                              | [] \<Rightarrow> (False, s));
          ds = takeWhile is_digit s1;
          rest = dropWhile is_digit s1
      in if ds = [] then None
         else if 1 < length ds \<and> hd ds = CHR ''0'' then None
         else if rest \<noteq> [] \<and> (hd rest = CHR ''.'' \<or> hd rest = CHR ''e'' \<or> hd rest = CHR ''E'')
           then None
         else Some (JInt (if neg then - int (nat_of_digits ds) else int (nat_of_digits ds)), rest))"

text \<open>A JSON string after its opening quote, up to the closing quote; no escapes.\<close>

fun parse_string_body :: "string \<Rightarrow> string \<Rightarrow> (string \<times> string) option" where
  "parse_string_body [] acc = None"
| "parse_string_body (c # cs) acc =
     (if c = CHR 0x22 then Some (acc, cs)
      else if c = CHR 0x5C \<or> (of_char c :: nat) < 32 then None
      else parse_string_body cs (acc @ [c]))"

fun parse_value :: "nat \<Rightarrow> string \<Rightarrow> (json \<times> string) option"
  and parse_elems :: "nat \<Rightarrow> string \<Rightarrow> json list \<Rightarrow> (json list \<times> string) option"
  and parse_members ::
    "nat \<Rightarrow> string \<Rightarrow> (string \<times> json) list \<Rightarrow> ((string \<times> json) list \<times> string) option" where
  "parse_value 0 s = None"
| "parse_value (Suc fuel) s =
     (case s of
        [] \<Rightarrow> None
      | c # cs \<Rightarrow>
          if c = CHR ''{'' then
            (case skip_ws cs of
               [] \<Rightarrow> None
             | d # ds \<Rightarrow>
                 if d = CHR ''}'' then Some (JObject [], ds)
                 else (case parse_members fuel (d # ds) [] of
                         None \<Rightarrow> None
                       | Some (kvs, rest) \<Rightarrow> Some (JObject kvs, rest)))
          else if c = CHR ''['' then
            (case skip_ws cs of
               [] \<Rightarrow> None
             | d # ds \<Rightarrow>
                 if d = CHR '']'' then Some (JArray [], ds)
                 else (case parse_elems fuel (d # ds) [] of
                         None \<Rightarrow> None
                       | Some (xs, rest) \<Rightarrow> Some (JArray xs, rest)))
          else if c = CHR 0x22 then
            (case parse_string_body cs [] of
               None \<Rightarrow> None
             | Some (str, rest) \<Rightarrow> Some (JString str, rest))
          else if take 4 s = ''null'' then Some (JNull, drop 4 s)
          else if take 4 s = ''true'' then Some (JBool True, drop 4 s)
          else if take 5 s = ''false'' then Some (JBool False, drop 5 s)
          else parse_int s)"
| "parse_elems 0 s acc = None"
| "parse_elems (Suc fuel) s acc =
     (case parse_value fuel s of
        None \<Rightarrow> None
      | Some (v, rest) \<Rightarrow>
          (case skip_ws rest of
             [] \<Rightarrow> None
           | d # ds \<Rightarrow>
               if d = CHR '']'' then Some (acc @ [v], ds)
               else if d = CHR '','' then parse_elems fuel (skip_ws ds) (acc @ [v])
               else None))"
| "parse_members 0 s acc = None"
| "parse_members (Suc fuel) s acc =
     (case s of
        [] \<Rightarrow> None
      | q # s1 \<Rightarrow>
          if q \<noteq> CHR 0x22 then None
          else
            (case parse_string_body s1 [] of
               None \<Rightarrow> None
             | Some (k, s2) \<Rightarrow>
                 (case skip_ws s2 of
                    [] \<Rightarrow> None
                  | c # s3 \<Rightarrow>
                      if c \<noteq> CHR '':'' then None
                      else
                        (case parse_value fuel (skip_ws s3) of
                           None \<Rightarrow> None
                         | Some (v, s4) \<Rightarrow>
                             (case skip_ws s4 of
                                [] \<Rightarrow> None
                              | d # ds \<Rightarrow>
                                  if d = CHR ''}'' then Some (AList.update k v acc, ds)
                                  else if d = CHR '','' then
                                    parse_members fuel (skip_ws ds) (AList.update k v acc)
                                  else None)))))"

definition py_json_loads :: "string \<Rightarrow> string + json" where
  "py_json_loads s =
     (case parse_value (Suc (length s)) (skip_ws s) of
        None \<Rightarrow> Inl ''Expecting value''
      | Some (v, rest) \<Rightarrow> if skip_ws rest = [] then Inr v else Inl ''Extra data'')"

definition py_lib :: stdlib where
  "py_lib = \<lparr>b64decode = py_b64decode, bytes_decode = py_bytes_decode,
             json_loads = py_json_loads, json_dumps = py_json_dumps,
             str_encode = (\<lambda>s. s), b64encode = py_b64encode\<rparr>"

section \<open>Response compression\<close>

text \<open>
  \<^verbatim>\<open>CompressionMiddleware.compress_content\<close> of
  \<^verbatim>\<open>about-us-scraper-service/api/middleware/compression.py\<close> and of
  \<^verbatim>\<open>api/middleware/compression.py\<close>. The compression libraries (\<^verbatim>\<open>brotli\<close>, \<^verbatim>\<open>gzip\<close>,
  \<^verbatim>\<open>zlib\<close>) are not code of the repository: the model takes their functions as a
  parameter, \<open>Inl\<close> being a raised exception. \<^verbatim>\<open>brotli.compress\<close> takes the content, the
  quality and whether \<^verbatim>\<open>mode=brotli.MODE_TEXT\<close> is passed; the other two take the content
  and the level. Logging is left out.
\<close>

record codecs =
  brotli_compress :: "string \<Rightarrow> int \<Rightarrow> bool \<Rightarrow> string + string"
  brotli_decompress :: "string \<Rightarrow> string + string"
  gzip_compress :: "string \<Rightarrow> int \<Rightarrow> string + string"
  gzip_decompress :: "string \<Rightarrow> string + string"
  zlib_compress :: "string \<Rightarrow> int \<Rightarrow> string + string"
  zlib_decompress :: "string \<Rightarrow> string + string"

text \<open>The service's method: compress, decompress again, and compare.\<close>

definition compress_content :: "codecs \<Rightarrow> int \<Rightarrow> string \<Rightarrow> string \<Rightarrow> string option" where
  "compress_content lib compression_level content encoding =
     (if encoding = ''br'' then
        (case brotli_compress lib content (min 11 compression_level) True of
           Inl e \<Rightarrow> None
         | Inr compressed \<Rightarrow>
             (case brotli_decompress lib compressed of
                Inl e \<Rightarrow> None
              | Inr decompressed \<Rightarrow>
                  if decompressed = content then Some compressed else None))
      else if encoding = ''gzip'' then
        (case gzip_compress lib content compression_level of
           Inl e \<Rightarrow> None
         | Inr compressed \<Rightarrow>
             (case gzip_decompress lib compressed of
                Inl e \<Rightarrow> None
              | Inr decompressed \<Rightarrow>
                  if decompressed = content then Some compressed else None))
      else if encoding = ''deflate'' then
        (case zlib_compress lib content compression_level of
           Inl e \<Rightarrow> None
         | Inr compressed \<Rightarrow>
             (case zlib_decompress lib compressed of
                Inl e \<Rightarrow> None
              | Inr decompressed \<Rightarrow>
                  if decompressed = content then Some compressed else None))
      else None)"

text \<open>The method of \<^verbatim>\<open>api/middleware/compression.py\<close>: the library's result as it is.\<close>

definition compress_content_api :: "codecs \<Rightarrow> int \<Rightarrow> string \<Rightarrow> string \<Rightarrow> string option" where
  "compress_content_api lib compression_level content encoding =
     (if encoding = ''br'' then
        (case brotli_compress lib content compression_level False of
           Inl e \<Rightarrow> None
         | Inr compressed \<Rightarrow> Some compressed)
      else if encoding = ''gzip'' then
        (case gzip_compress lib content compression_level of
           Inl e \<Rightarrow> None
         | Inr compressed \<Rightarrow> Some compressed)
      else if encoding = ''deflate'' then
        (case zlib_compress lib content compression_level of
           Inl e \<Rightarrow> None
         | Inr compressed \<Rightarrow> Some compressed)
      else None)"

text \<open>The library calls that belong to an encoding.\<close>

definition library_compress :: "codecs \<Rightarrow> bool \<Rightarrow> int \<Rightarrow> string \<Rightarrow> string \<Rightarrow> string + string" where
  "library_compress lib service level content encoding =
     (if encoding = ''br''
      then (if service then brotli_compress lib content (min 11 level) True
            else brotli_compress lib content level False)
      else if encoding = ''gzip'' then gzip_compress lib content level
      else zlib_compress lib content level)"

definition library_decompress :: "codecs \<Rightarrow> string \<Rightarrow> string \<Rightarrow> string + string" where
  "library_decompress lib encoding bs =
     (if encoding = ''br'' then brotli_decompress lib bs
      else if encoding = ''gzip'' then gzip_decompress lib bs
      else zlib_decompress lib bs)"

text \<open>
  Two libraries to evaluate the methods on. The first stores the content behind a
  one-byte header and raises on a level outside 0 to 9; the second is faulty: what it
  returns as compressed decompresses to the content without its first byte.
\<close>

definition store :: "string \<Rightarrow> int \<Rightarrow> string + string" where
  "store content level =
     (if 0 \<le> level \<and> level \<le> 9 then Inr (CHR 0x78 # content) else Inl ''Bad compression level'')"

definition unstore :: "string \<Rightarrow> string + string" where
  "unstore bs = (case bs of [] \<Rightarrow> Inl ''incomplete or truncated stream''
                 | h # content \<Rightarrow> if h = CHR 0x78 then Inr content else Inl ''incorrect header check'')"

definition storing_codecs :: codecs where
  "storing_codecs =
     \<lparr>brotli_compress = (\<lambda>content quality text_mode. store content quality),
      brotli_decompress = unstore,
      gzip_compress = store, gzip_decompress = unstore,
      zlib_compress = store, zlib_decompress = unstore\<rparr>"

definition faulty_codecs :: codecs where
  "faulty_codecs =
     \<lparr>brotli_compress = (\<lambda>content quality text_mode. Inr content),
      brotli_decompress = (\<lambda>bs. Inr (tl bs)),
      gzip_compress = (\<lambda>content level. Inr content), gzip_decompress = (\<lambda>bs. Inr (tl bs)),
      zlib_compress = (\<lambda>content level. Inr content), zlib_decompress = (\<lambda>bs. Inr (tl bs))\<rparr>"

section \<open>Request validation\<close>

text \<open>
  \<^verbatim>\<open>RequestValidator\<close> of \<^verbatim>\<open>api/middleware/validation.py\<close>. Strings are lists of
  characters, and the inputs of interest are ASCII. The check \<^verbatim>\<open>validators.url\<close> of the
  third-party package is a parameter of the model. Of \<^verbatim>\<open>urllib.parse.urlparse\<close> the model
  has the two components the validator reads, the scheme and the network location.
\<close>

record RequestValidator =
  max_url_length :: int
  allowed_schemes :: "string list"
  blocked_domains :: "string list"
  max_content_length :: int

text \<open>The constructor: an absent or empty list of schemes stands for http and https.\<close>

definition RequestValidator_init ::
  "int \<Rightarrow> string list option \<Rightarrow> string list option \<Rightarrow> int \<Rightarrow> RequestValidator" where
  "RequestValidator_init max_len schemes blocked max_content =
     \<lparr>max_url_length = max_len,
      allowed_schemes = (case schemes of None \<Rightarrow> [''http'', ''https'']
                         | Some l \<Rightarrow> if l = [] then [''http'', ''https''] else l),
      blocked_domains = (case blocked of None \<Rightarrow> [] | Some l \<Rightarrow> l),
      max_content_length = max_content\<rparr>"

definition is_upper :: "char \<Rightarrow> bool" where
  "is_upper c = (65 \<le> (of_char c :: nat) \<and> (of_char c :: nat) \<le> 90)"

definition is_lower :: "char \<Rightarrow> bool" where
  "is_lower c = (97 \<le> (of_char c :: nat) \<and> (of_char c :: nat) \<le> 122)"

definition is_decimal :: "char \<Rightarrow> bool" where
  "is_decimal c = (48 \<le> (of_char c :: nat) \<and> (of_char c :: nat) \<le> 57)"

definition is_alnum :: "char \<Rightarrow> bool" where
  "is_alnum c = (is_upper c \<or> is_lower c \<or> is_decimal c)"

definition lower :: "string \<Rightarrow> string" where
  "lower s = map (\<lambda>c. if is_upper c then char_of ((of_char c :: nat) + 32) else c) s"

definition scheme_char :: "char \<Rightarrow> bool" where
  "scheme_char c = (is_alnum c \<or> c = CHR ''+'' \<or> c = CHR ''-'' \<or> c = CHR ''.'')"

text \<open>
  \<^verbatim>\<open>urlparse(url)\<close>: the scheme is the text before the first colon, in lower case, when
  that text starts with a letter and has scheme characters only, and is empty otherwise;
  the network location is what follows \<^verbatim>\<open>//\<close> up to the next \<^verbatim>\<open>/\<close>, \<^verbatim>\<open>?\<close> or \<^verbatim>\<open>#\<close>. A
  location with one square bracket but not the other raises \<^verbatim>\<open>ValueError\<close>.
\<close>

definition urlparse :: "string \<Rightarrow> string + string \<times> string" where
  "urlparse url =
     (let pre = takeWhile (\<lambda>c. c \<noteq> CHR '':'') url;
          has_scheme = (length pre < length url \<and> pre \<noteq> []
                        \<and> (is_upper (hd pre) \<or> is_lower (hd pre)) \<and> list_all scheme_char pre);
          scheme = (if has_scheme then lower pre else []);
          rest = (if has_scheme then drop (Suc (length pre)) url else url);
          netloc = (if take 2 rest = ''//''
                    then takeWhile (\<lambda>c. c \<noteq> CHR ''/'' \<and> c \<noteq> CHR ''?'' \<and> c \<noteq> CHR ''#'')
                           (drop 2 rest)
                    else [])
      in if (CHR ''['' \<in> set netloc) \<noteq> (CHR '']'' \<in> set netloc)
         then Inl ''Invalid IPv6 URL''
         else Inr (scheme, netloc))"

fun join :: "string \<Rightarrow> string list \<Rightarrow> string" where
  "join sep [] = []"
| "join sep [x] = x"
| "join sep (x # y # ys) = x @ sep @ join sep (y # ys)"

definition validate_url :: "(string \<Rightarrow> bool) \<Rightarrow> RequestValidator \<Rightarrow> string \<Rightarrow> string option" where
  "validate_url validators_url self url =
     (if int (length url) > max_url_length self
      then Some (''URL length exceeds maximum of '' @ str_int (max_url_length self)
                 @ '' characters'')
      else if \<not> validators_url url then Some ''Invalid URL format''
      else
        (case urlparse url of
           Inl e \<Rightarrow> Some (''URL parsing failed: '' @ e)
         | Inr (scheme, netloc) \<Rightarrow>
             if scheme \<notin> set (allowed_schemes self)
             then Some (''URL scheme must be one of: '' @ join '', '' (allowed_schemes self))
             else if lower netloc \<in> set (blocked_domains self)
             then Some ''Access to this domain is blocked''
             else if list_ex (\<lambda>char. char \<in> set url)
                       [CHR ''<'', CHR ''>'', CHR 0x22, CHR 0x27, CHR '';'', CHR ''('', CHR '')'']
             then Some ''URL contains invalid characters''
             else None))"

text \<open>
  \<^verbatim>\<open>re.match(r"^sk-[a-zA-Z0-9]{32,}$", api_key)\<close>: the prefix, then at least 32 letters or
  digits up to the end of the string or up to a final newline.
\<close>

definition api_key_pattern :: "string \<Rightarrow> bool" where
  "api_key_pattern api_key =
     (take 3 api_key = ''sk-''
      \<and> (let body = takeWhile is_alnum (drop 3 api_key);
              rest = dropWhile is_alnum (drop 3 api_key)
          in 32 \<le> length body \<and> (rest = [] \<or> rest = [CHR 0x0A])))"

definition validate_api_key :: "string option \<Rightarrow> string option" where
  "validate_api_key api_key =
     (case api_key of
        None \<Rightarrow> None
      | Some k \<Rightarrow>
          if k = [] then None
          else if length k < 32 then Some ''API key is too short''
          else if \<not> api_key_pattern k then Some ''Invalid API key format''
          else None)"

definition default_validator :: RequestValidator where
  "default_validator =
     RequestValidator_init 2048 (Some [''http'', ''https'']) None (10 * 1024 * 1024)"


section \<open>Properties of the rate limiter\<close>

lemma get_tokens_same_instant:
  assumes "tokens self key = Some (real_of_int k, now)" and "k \<le> burst_limit self"
  shows "get_tokens self key now = (real_of_int k, now)"
  using assms by (simp add: get_tokens_def min_def)

lemma fst_is_allowed_seq_Cons:
  "fst (is_allowed_seq self key (clock # clocks)) =
     fst (is_allowed self key clock)
     # fst (is_allowed_seq (snd (is_allowed self key clock)) key clocks)"
  by (simp add: case_prod_beta)

lemma is_allowed_seq_stored:
  assumes "tokens self key = Some (real_of_int k, now)" and "0 \<le> k" and "k \<le> burst_limit self"
  shows "fst (is_allowed_seq self key (replicate n now)) =
           replicate (min n (nat k)) True @ replicate (n - nat k) False"
  using assms
proof (induction n arbitrary: self k)
  case 0
  then show ?case by simp
next
  case (Suc n)
  have gt: "get_tokens self key now = (real_of_int k, now)"
    using Suc.prems by (simp add: get_tokens_same_instant)
  show ?case
  proof (cases "1 \<le> k")
    case True
    define self' where "self' = update_tokens self key (real_of_int k - 1) now"
    have step: "is_allowed self key now = (True, self')"
      using gt True by (simp add: is_allowed_def self'_def)
    have st: "tokens self' key = Some (real_of_int (k - 1), now)"
      by (simp add: self'_def update_tokens_def)
    have bl: "burst_limit self' = burst_limit self"
      by (simp add: self'_def update_tokens_def)
    have ih: "fst (is_allowed_seq self' key (replicate n now)) =
                replicate (min n (nat (k - 1))) True @ replicate (n - nat (k - 1)) False"
      using Suc.IH [OF st] True Suc.prems bl by simp
    have k: "nat k = Suc (nat (k - 1))"
      using True by simp
    show ?thesis
      using step ih by (simp add: k fst_is_allowed_seq_Cons del: is_allowed_seq.simps)
  next
    case False
    then have k0: "k = 0" using Suc.prems by simp
    have step: "is_allowed self key now = (False, self)"
      using gt k0 by (simp add: is_allowed_def)
    have ih: "fst (is_allowed_seq self key (replicate n now)) =
                replicate (min n (nat k)) True @ replicate (n - nat k) False"
      using Suc.IH [OF Suc.prems] .
    show ?thesis
      using step ih k0 by (simp add: fst_is_allowed_seq_Cons del: is_allowed_seq.simps)
  qed
qed

lemma is_allowed_seq_never:
  assumes "tokens self key = None" and "burst_limit self < 1"
  shows "fst (is_allowed_seq self key (replicate n now)) = replicate n False"
proof (induction n)
  case 0
  then show ?case by simp
next
  case (Suc n)
  have "is_allowed self key now = (False, self)"
    using assms by (simp add: is_allowed_def get_tokens_def)
  then show ?case
    using Suc by (simp add: fst_is_allowed_seq_Cons del: is_allowed_seq.simps)
qed

text \<open>
  Claim C1. For a key the limiter has not seen, \<open>n\<close> calls of \<^verbatim>\<open>is_allowed\<close> at one and
  the same clock reading answer true exactly \<open>min n b\<close> times, \<open>b\<close> the burst limit, and
  these are the first calls: the answers are \<open>min n b\<close> times true followed by false
  only. (A burst limit below zero admits nothing, which \<open>nat\<close> expresses.)
\<close>

theorem token_bucket_monotonicity:
  assumes "tokens self key = None"
  shows "fst (is_allowed_seq self key (replicate n now)) =
           replicate (min n (nat (burst_limit self))) True
           @ replicate (n - min n (nat (burst_limit self))) False
         \<and> length (filter id (fst (is_allowed_seq self key (replicate n now)))) =
           min n (nat (burst_limit self))"
proof -
  let ?b = "burst_limit self"
  have main: "fst (is_allowed_seq self key (replicate n now)) =
           replicate (min n (nat ?b)) True @ replicate (n - min n (nat ?b)) False"
  proof (cases n)
    case 0
    then show ?thesis by simp
  next
    case (Suc m)
    show ?thesis
    proof (cases "1 \<le> ?b")
      case True
      define self' where "self' = update_tokens self key (real_of_int ?b - 1) now"
      have step: "is_allowed self key now = (True, self')"
        using assms True by (simp add: is_allowed_def get_tokens_def self'_def)
      have st: "tokens self' key = Some (real_of_int (?b - 1), now)"
        by (simp add: self'_def update_tokens_def)
      have bl: "burst_limit self' = ?b"
        by (simp add: self'_def update_tokens_def)
      have rest: "fst (is_allowed_seq self' key (replicate m now)) =
                replicate (min m (nat (?b - 1))) True @ replicate (m - nat (?b - 1)) False"
        using is_allowed_seq_stored [OF st] True bl by simp
      have b: "nat ?b = Suc (nat (?b - 1))"
        using True by simp
      have "m - nat (?b - 1) = Suc m - min (Suc m) (nat ?b)"
        using b by (simp add: min_def)
      then show ?thesis
        using step rest Suc
        by (simp add: b fst_is_allowed_seq_Cons del: is_allowed_seq.simps)
    next
      case False
      then have "fst (is_allowed_seq self key (replicate n now)) = replicate n False"
        using assms by (simp add: is_allowed_seq_never)
      moreover have "nat ?b = 0" using False by simp
      ultimately show ?thesis by simp
    qed
  qed
  have "length (filter id (replicate (min n (nat ?b)) True @ replicate (n - min n (nat ?b)) False))
          = min n (nat ?b)"
    by simp
  with main show ?thesis by simp
qed

theorem token_bucket_monotonicity_witness:
  "tokens (RateLimiter_init 60 3) ''10.0.0.1'' = None
   \<and> fst (is_allowed_seq (RateLimiter_init 60 3) ''10.0.0.1'' (replicate 5 100)) =
       [True, True, True, False, False]"
proof -
  have h: "tokens (RateLimiter_init 60 3) ''10.0.0.1'' = None"
    by (simp add: RateLimiter_init_def)
  have "burst_limit (RateLimiter_init 60 3) = 3"
    by (simp add: RateLimiter_init_def)
  then show ?thesis
    using h token_bucket_monotonicity [OF h, of 5 100]
    by (simp add: numeral_eq_Suc)
qed


text \<open>
  Claim C5, as the code has it. An admitted call stores, for its key, the refilled token
  count less one (which is not below zero) together with the clock reading, and writes
  nothing else; a rejected call returns the limiter as it was: it stores neither a token
  count nor a timestamp.
\<close>

theorem is_allowed_state_effect:
  assumes "is_allowed self key clock = (ok, self')"
  shows "(ok \<longrightarrow>
            self' = self\<lparr>tokens := (tokens self)(key \<mapsto> (fst (get_tokens self key clock) - 1, clock))\<rparr>
            \<and> 0 \<le> fst (get_tokens self key clock) - 1)
         \<and> (\<not> ok \<longrightarrow> self' = self \<and> fst (get_tokens self key clock) < 1)"
proof -
  obtain toks now where gt: "get_tokens self key clock = (toks, now)"
    by (cases "get_tokens self key clock")
  have now: "now = clock"
    using gt by (auto simp: get_tokens_def Let_def split: option.splits prod.splits)
  show ?thesis
    using assms gt now by (auto simp: is_allowed_def update_tokens_def split: if_splits)
qed

theorem is_allowed_state_effect_witness:
  "is_allowed drained_limiter ''10.0.0.1'' 101 =
     (True, drained_limiter\<lparr>tokens := (tokens drained_limiter)(''10.0.0.1'' \<mapsto> (1 / 2, 101))\<rparr>)
   \<and> is_allowed drained_limiter ''10.0.0.1'' (401 / 4) = (False, drained_limiter)"
proof -
  have t: "tokens drained_limiter ''10.0.0.1'' = Some (1 / 2, 100)"
    by (simp add: drained_limiter_def update_tokens_def)
  have r: "rate drained_limiter = 1" and b: "burst_limit drained_limiter = 10"
    by (simp_all add: drained_limiter_def update_tokens_def RateLimiter_init_def)
  have g1: "get_tokens drained_limiter ''10.0.0.1'' 101 = (3 / 2, 101)"
    using t r b by (simp add: get_tokens_def)
  have g2: "get_tokens drained_limiter ''10.0.0.1'' (401 / 4) = (3 / 4, 401 / 4)"
    using t r b by (simp add: get_tokens_def)
  obtain ok1 s1 where c1: "is_allowed drained_limiter ''10.0.0.1'' 101 = (ok1, s1)"
    by (cases "is_allowed drained_limiter ''10.0.0.1'' 101")
  obtain ok2 s2 where c2: "is_allowed drained_limiter ''10.0.0.1'' (401 / 4) = (ok2, s2)"
    by (cases "is_allowed drained_limiter ''10.0.0.1'' (401 / 4)")
  have "ok1" using c1 g1 by (simp add: is_allowed_def)
  moreover have "\<not> ok2" using c2 g2 by (simp add: is_allowed_def)
  ultimately show ?thesis
    using is_allowed_state_effect [OF c1] is_allowed_state_effect [OF c2] c1 c2 g1
    by simp
qed

text \<open>
  The claim as the specification words it fails: a call rejected a quarter of a second
  after the stored reading leaves the stored timestamp at the old reading.
\<close>

theorem rejection_refreshes_timestamp_counterexample:
  "fst (is_allowed drained_limiter ''10.0.0.1'' (401 / 4)) = False
   \<and> tokens (snd (is_allowed drained_limiter ''10.0.0.1'' (401 / 4))) ''10.0.0.1''
       = Some (1 / 2, 100)
   \<and> (100 :: real) \<noteq> 401 / 4"
  by (simp add: is_allowed_def get_tokens_def drained_limiter_def update_tokens_def
      RateLimiter_init_def)


section \<open>Properties of the retry loops\<close>

lemma map_upt_shift: "map f [0..<Suc n] = f 0 # map (\<lambda>i. f (Suc i)) [0..<n]"
  by (simp add: map_upt_Suc del: upt_Suc)

lemma overflow_threshold_large: "8 < overflow_threshold"
  by (simp add: overflow_threshold_def)

lemma py_pow_in_range:
  assumes "0 \<le> n" and "\<bar>x ^ nat n\<bar> < overflow_threshold"
  shows "py_pow x n = Inr (x ^ nat n)"
  using assms by (simp add: py_pow_def)

lemma py_pow_overflow:
  assumes "0 \<le> n" and "overflow_threshold \<le> \<bar>x ^ nat n\<bar>"
  shows "py_pow x n = Inl OverflowError"
  using assms by (simp add: py_pow_def)

lemma retryable_loop_take:
  assumes "\<forall>i<n. \<exists>m. func i = RaisesRetryable m" and "int (a + n) < max_attempts config"
    and "\<forall>i<n. \<bar>exponential_base config ^ (a + i)\<bar> < overflow_threshold"
  shows "take n (snd (retryable_loop config func rnd [a..<nat (max_attempts config)] le)) =
           map (\<lambda>i. min (initial_delay config * exponential_base config ^ (a + i)) (max_delay config)
                     * (if jitter config then 1 / 2 + rnd i else 1)) [0..<n]"
  using assms
proof (induction n arbitrary: a func rnd le)
  case 0
  then show ?case by simp
next
  case (Suc n)
  obtain m where m: "func 0 = RaisesRetryable m"
    using Suc.prems(1) by auto
  have lt: "a < nat (max_attempts config)"
    using Suc.prems(2) by simp
  have upt: "[a..<nat (max_attempts config)] = a # [Suc a..<nat (max_attempts config)]"
    using lt by (simp add: upt_conv_Cons)
  have ne: "int a \<noteq> max_attempts config - 1"
    using Suc.prems(2) by simp
  have "\<bar>exponential_base config ^ (a + 0)\<bar> < overflow_threshold"
    using Suc.prems(3) by blast
  then have pw: "py_pow (exponential_base config) (int a) = Inr (exponential_base config ^ a)"
    using py_pow_in_range [of "int a" "exponential_base config"] by simp
  have fails': "\<forall>i<n. \<exists>m. (func \<circ> Suc) i = RaisesRetryable m"
    using Suc.prems(1) by simp
  have bound': "int (Suc a + n) < max_attempts config"
    using Suc.prems(2) by simp
  have range': "\<forall>i<n. \<bar>exponential_base config ^ (Suc a + i)\<bar> < overflow_threshold"
  proof (intro allI impI)
    fix i assume "i < n"
    then have "\<bar>exponential_base config ^ (a + Suc i)\<bar> < overflow_threshold"
      using Suc.prems(3) by (meson Suc_less_eq)
    then show "\<bar>exponential_base config ^ (Suc a + i)\<bar> < overflow_threshold"
      by simp
  qed
  note ih = Suc.IH [OF fails' bound' range']
  show ?case
  proof (cases "jitter config")
    case True
    have step: "snd (retryable_loop config func rnd (a # [Suc a..<nat (max_attempts config)]) le) =
        min (initial_delay config * exponential_base config ^ a) (max_delay config) * (1 / 2 + rnd 0)
        # snd (retryable_loop config (func \<circ> Suc) (rnd \<circ> Suc) [Suc a..<nat (max_attempts config)]
                (Some (RetryableError m)))"
      using m ne True pw by (simp add: case_prod_beta Let_def)
    show ?thesis
      unfolding upt step map_upt_shift
      using True ih [of "rnd \<circ> Suc" "Some (RetryableError m)"] by (simp add: comp_def)
  next
    case False
    have step: "snd (retryable_loop config func rnd (a # [Suc a..<nat (max_attempts config)]) le) =
        min (initial_delay config * exponential_base config ^ a) (max_delay config)
        # snd (retryable_loop config (func \<circ> Suc) rnd [Suc a..<nat (max_attempts config)]
                (Some (RetryableError m)))"
      using m ne False pw by (simp add: case_prod_beta Let_def)
    show ?thesis
      unfolding upt step map_upt_shift
      using False ih [of rnd "Some (RetryableError m)"] by (simp add: comp_def)
  qed
qed

lemma calculate_delay_pos:
  assumes "1 \<le> attempt"
    and "\<bar>exponential_base config ^ nat (attempt - 1)\<bar> < overflow_threshold"
  shows "calculate_delay attempt config u =
           Inr (min (initial_delay config * exponential_base config ^ nat (attempt - 1))
                    (max_delay config)
                * (if jitter config then 1 + uniform (- (1 / 4)) (1 / 4) u else 1))"
proof -
  have "py_pow (exponential_base config) (attempt - 1) =
          Inr (exponential_base config ^ nat (attempt - 1))"
    using assms by (simp add: py_pow_in_range)
  then show ?thesis
    by (simp add: calculate_delay_def)
qed

lemma retry_async_loop_take:
  assumes "\<forall>i<n. \<exists>m. func i = RaisesRetryable m" and "1 \<le> a"
    and "a + int n \<le> max_attempts config"
    and "\<forall>i<n. \<bar>exponential_base config ^ (nat (a - 1) + i)\<bar> < overflow_threshold"
  shows "take n (snd (retry_async_loop config func rnd [a..max_attempts config] le)) =
           map (\<lambda>i. min (initial_delay config * exponential_base config ^ (nat (a - 1) + i))
                         (max_delay config)
                     * (if jitter config then 1 + uniform (- (1 / 4)) (1 / 4) (rnd i) else 1))
               [0..<n]"
  using assms
proof (induction n arbitrary: a func rnd le)
  case 0
  then show ?case by simp
next
  case (Suc n)
  obtain m where m: "func 0 = RaisesRetryable m"
    using Suc.prems(1) by auto
  have upto: "[a..max_attempts config] = a # [a + 1..max_attempts config]"
    using Suc.prems(3) by (simp add: upto_rec1)
  have ne: "a \<noteq> max_attempts config"
    using Suc.prems(3) by simp
  have fails': "\<forall>i<n. \<exists>m. (func \<circ> Suc) i = RaisesRetryable m"
    using Suc.prems(1) by simp
  have a': "1 \<le> a + 1" using Suc.prems(2) by simp
  have bound': "a + 1 + int n \<le> max_attempts config"
    using Suc.prems(3) by simp
  have ex: "nat a = Suc (nat (a - 1))"
    using Suc.prems(2) by simp
  have range': "\<forall>i<n. \<bar>exponential_base config ^ (nat (a + 1 - 1) + i)\<bar> < overflow_threshold"
  proof (intro allI impI)
    fix i assume "i < n"
    then have "\<bar>exponential_base config ^ (nat (a - 1) + Suc i)\<bar> < overflow_threshold"
      using Suc.prems(4) by (meson Suc_less_eq)
    then show "\<bar>exponential_base config ^ (nat (a + 1 - 1) + i)\<bar> < overflow_threshold"
      by (simp add: ex)
  qed
  note ih = Suc.IH [OF fails' a' bound' range']
  have "\<bar>exponential_base config ^ (nat (a - 1) + 0)\<bar> < overflow_threshold"
    using Suc.prems(4) by blast
  then have r0: "\<bar>exponential_base config ^ nat (a - 1)\<bar> < overflow_threshold"
    by simp
  note cd = calculate_delay_pos [OF Suc.prems(2) r0, of "rnd 0"]
  show ?case
  proof (cases "jitter config")
    case True
    have step: "snd (retry_async_loop config func rnd (a # [a + 1..max_attempts config]) le) =
        min (initial_delay config * exponential_base config ^ nat (a - 1)) (max_delay config)
          * (1 + uniform (- (1 / 4)) (1 / 4) (rnd 0))
        # snd (retry_async_loop config (func \<circ> Suc) (rnd \<circ> Suc) [a + 1..max_attempts config]
                (Some (RetryableError m)))"
      using m ne True cd by (simp add: case_prod_beta Let_def)
    show ?thesis
      unfolding upto step map_upt_shift
      using True ih [of "rnd \<circ> Suc" "Some (RetryableError m)"] by (simp add: comp_def ex)
  next
    case False
    have step: "snd (retry_async_loop config func rnd (a # [a + 1..max_attempts config]) le) =
        min (initial_delay config * exponential_base config ^ nat (a - 1)) (max_delay config)
        # snd (retry_async_loop config (func \<circ> Suc) rnd [a + 1..max_attempts config]
                (Some (RetryableError m)))"
      using m ne False cd by (simp add: case_prod_beta Let_def)
    show ?thesis
      unfolding upto step map_upt_shift
      using False ih [of rnd "Some (RetryableError m)"] by (simp add: comp_def ex)
  qed
qed

text \<open>
  Claim C3, as the code has it. When the first \<open>n\<close> calls of the operation fail with a
  retryable error, attempts remain after each (\<open>n < max_attempts\<close>), and the powers of the
  base that these attempts compute stay within the range of the floats, the delay slept
  after failed attempt \<open>k\<close> (counted from 1) is
  \<open>min (initial_delay * exponential_base ^ (k - 1)) max_delay\<close> exactly when jitter is
  off, in the decorator \<^verbatim>\<open>retryable\<close>, in \<^verbatim>\<open>retry_async\<close> and in \<^verbatim>\<open>calculate_delay\<close>.
  With jitter on, \<^verbatim>\<open>retryable\<close> scales that value by \<open>1/2 + r\<close> and \<^verbatim>\<open>calculate_delay\<close>
  (hence \<^verbatim>\<open>retry_async\<close>) by \<open>3/4 + r/2\<close>, where \<open>r\<close> is the draw of \<^verbatim>\<open>random.random()\<close>
  made for that delay: a factor in \<open>[0.5, 1.5)\<close> in the first and in \<open>[0.75, 1.25)\<close> in
  the second. A power that leaves the range of the floats makes \<^verbatim>\<open>calculate_delay\<close>
  raise \<^verbatim>\<open>OverflowError\<close> instead, and makes the decorator's run end with that error.
\<close>

theorem retry_delay_schedule:
  assumes "\<forall>i<n. \<exists>m. func i = RaisesRetryable m" and "int n < max_attempts config"
    and "\<forall>k<n. \<bar>exponential_base config ^ k\<bar> < overflow_threshold"
  shows "take n (snd (retryable config func rnd)) =
           map (\<lambda>k. min (initial_delay config * exponential_base config ^ (k - 1))
                         (max_delay config)
                     * (if jitter config then 1 / 2 + rnd (k - 1) else 1)) [1..<Suc n]
       \<and> take n (snd (retry_async func config rnd)) =
           map (\<lambda>k. min (initial_delay config * exponential_base config ^ (k - 1))
                         (max_delay config)
                     * (if jitter config then 3 / 4 + rnd (k - 1) / 2 else 1)) [1..<Suc n]
       \<and> (\<forall>k\<in>{1..n}. calculate_delay (int k) config (rnd (k - 1)) =
             Inr (min (initial_delay config * exponential_base config ^ (k - 1))
                      (max_delay config)
                  * (if jitter config then 3 / 4 + rnd (k - 1) / 2 else 1)))
       \<and> (\<forall>k\<in>{1..}. overflow_threshold \<le> \<bar>exponential_base config ^ (k - 1)\<bar> \<longrightarrow>
             calculate_delay (int k) config u = Inl OverflowError
             \<and> ((\<exists>m. g 0 = RaisesRetryable m) \<and> int k < max_attempts config \<longrightarrow>
                  fst (retryable_loop config g rnd [k - 1..<nat (max_attempts config)] le)
                    = Inl OverflowError))"
proof -
  have shift: "\<And>f. map f [1..<Suc n] = map (\<lambda>i. f (Suc i)) [0..<n]"
    by (simp add: map_Suc_upt [symmetric] del: upt_Suc)
  have u: "\<And>x. 1 + uniform (- (1 / 4)) (1 / 4) x = 3 / 4 + x / 2"
    by (simp add: uniform_def)
  have r0: "\<forall>i<n. \<bar>exponential_base config ^ (0 + i)\<bar> < overflow_threshold"
    using assms(3) by simp
  have r1: "\<forall>i<n. \<bar>exponential_base config ^ (nat (1 - 1) + i)\<bar> < overflow_threshold"
    using assms(3) by simp
  have A: "take n (snd (retryable config func rnd)) =
           map (\<lambda>k. min (initial_delay config * exponential_base config ^ (k - 1))
                         (max_delay config)
                     * (if jitter config then 1 / 2 + rnd (k - 1) else 1)) [1..<Suc n]"
    unfolding retryable_def shift
    using retryable_loop_take [OF assms(1) _ r0, of rnd None] assms(2) by simp
  have B: "take n (snd (retry_async func config rnd)) =
           map (\<lambda>k. min (initial_delay config * exponential_base config ^ (k - 1))
                         (max_delay config)
                     * (if jitter config then 3 / 4 + rnd (k - 1) / 2 else 1)) [1..<Suc n]"
    unfolding retry_async_def shift
    using retry_async_loop_take [OF assms(1) _ _ r1, of rnd None] assms(2) by (simp add: u)
  have C: "\<forall>k\<in>{1..n}. calculate_delay (int k) config (rnd (k - 1)) =
             Inr (min (initial_delay config * exponential_base config ^ (k - 1))
                      (max_delay config)
                  * (if jitter config then 3 / 4 + rnd (k - 1) / 2 else 1))"
  proof
    fix k assume kn: "k \<in> {1..n}"
    then have k: "1 \<le> int k" by simp
    have e: "nat (int k - 1) = k - 1" by simp
    have "k - 1 < n" using kn by auto
    then have "\<bar>exponential_base config ^ nat (int k - 1)\<bar> < overflow_threshold"
      using assms(3) e by simp
    from calculate_delay_pos [OF k this, of "rnd (k - 1)"]
    show "calculate_delay (int k) config (rnd (k - 1)) =
             Inr (min (initial_delay config * exponential_base config ^ (k - 1))
                      (max_delay config)
                  * (if jitter config then 3 / 4 + rnd (k - 1) / 2 else 1))"
      by (simp add: u e)
  qed
  have D: "\<forall>k\<in>{1..}. overflow_threshold \<le> \<bar>exponential_base config ^ (k - 1)\<bar> \<longrightarrow>
             calculate_delay (int k) config u = Inl OverflowError
             \<and> ((\<exists>m. g 0 = RaisesRetryable m) \<and> int k < max_attempts config \<longrightarrow>
                  fst (retryable_loop config g rnd [k - 1..<nat (max_attempts config)] le)
                    = Inl OverflowError)"
  proof (intro ballI impI conjI)
    fix k :: nat assume k: "k \<in> {1..}"
      and ov: "overflow_threshold \<le> \<bar>exponential_base config ^ (k - 1)\<bar>"
    have e: "nat (int k - 1) = k - 1" by simp
    have p: "py_pow (exponential_base config) (int k - 1) = Inl OverflowError"
      using py_pow_overflow [of "int k - 1" "exponential_base config"] ov k e by simp
    then show "calculate_delay (int k) config u = Inl OverflowError"
      by (simp add: calculate_delay_def)
    assume g: "(\<exists>m. g 0 = RaisesRetryable m) \<and> int k < max_attempts config"
    then obtain m where m: "g 0 = RaisesRetryable m" by blast
    have lt: "k - 1 < nat (max_attempts config)" using g k by auto
    have upt: "[k - 1..<nat (max_attempts config)] = (k - 1) # [Suc (k - 1)..<nat (max_attempts config)]"
      using lt by (simp add: upt_conv_Cons)
    have ne: "int (k - 1) \<noteq> max_attempts config - 1"
      using g k by auto
    have p': "py_pow (exponential_base config) (int (k - 1)) = Inl OverflowError"
      using p k by (simp add: of_nat_diff)
    show "fst (retryable_loop config g rnd [k - 1..<nat (max_attempts config)] le)
            = Inl OverflowError"
      unfolding upt using m ne p' by simp
  qed
  from A B C D show ?thesis by blast
qed

theorem retry_delay_schedule_witness:
  "take 3 (snd (retryable (test_policy False) always_failing (\<lambda>i. 0))) = [1, 2, 3]
   \<and> take 3 (snd (retry_async always_failing (test_policy False) (\<lambda>i. 0))) = [1, 2, 3]
   \<and> take 3 (snd (retryable (test_policy True) always_failing (\<lambda>i. 0))) = [1 / 2, 1, 3 / 2]
   \<and> take 3 (snd (retry_async always_failing (test_policy True) (\<lambda>i. 0))) = [3 / 4, 3 / 2, 9 / 4]"
proof -
  have f: "\<forall>i<3. \<exists>m. always_failing i = RaisesRetryable m"
    by (simp add: always_failing_def)
  have b: "int 3 < max_attempts (test_policy j)" for j
    by (simp add: test_policy_def)
  have r: "\<forall>k<3. \<bar>exponential_base (test_policy j) ^ k\<bar> < overflow_threshold" for j
  proof (intro allI impI)
    fix k :: nat assume "k < 3"
    then have "(2 :: real) ^ k \<le> 2 ^ 3"
      by (intro power_increasing) simp_all
    then show "\<bar>exponential_base (test_policy j) ^ k\<bar> < overflow_threshold"
      using overflow_threshold_large by (simp add: test_policy_def)
  qed
  have l: "[1..<Suc 3] = [1, 2, 3]"
    by (simp add: upt_rec)
  show ?thesis
    using retry_delay_schedule [OF f b r, of False "\<lambda>i. 0", THEN conjunct1]
      retry_delay_schedule [OF f b r, of False "\<lambda>i. 0", THEN conjunct2, THEN conjunct1]
      retry_delay_schedule [OF f b r, of True "\<lambda>i. 0", THEN conjunct1]
      retry_delay_schedule [OF f b r, of True "\<lambda>i. 0", THEN conjunct2, THEN conjunct1]
    unfolding l by (simp add: test_policy_def)
qed

text \<open>
  The jitter of \<^verbatim>\<open>calculate_delay\<close> is not drawn from \<open>[0.5, 1.5)\<close>: for a base delay of 1
  the smallest draw gives 0.75, and no draw gives 0.5.
\<close>

theorem calculate_delay_jitter_counterexample:
  "calculate_delay 1 (test_policy True) 0 = Inr (3 / 4)
   \<and> \<not> (\<exists>u. 0 \<le> u \<and> u < 1 \<and> calculate_delay 1 (test_policy True) u = Inr (1 / 2))"
proof -
  have one: "(1 :: int) \<le> 1" by simp
  have "\<bar>exponential_base (test_policy True) ^ nat (1 - 1)\<bar> < overflow_threshold"
    using overflow_threshold_large by simp
  from calculate_delay_pos [OF one this]
  have "calculate_delay 1 (test_policy True) u = Inr (3 / 4 + u / 2)" for u
    by (simp add: test_policy_def uniform_def)
  then show ?thesis by auto
qed


section \<open>Properties of the paginator\<close>

lemma py_slice_window:
  assumes "0 \<le> start" and "0 \<le> n"
  shows "py_slice xs start (start + n) = take (nat n) (drop (nat start) xs)"
proof -
  have s: "slice_bound (length xs) start = min (nat start) (length xs)"
    using assms by (simp add: slice_bound_def)
  have e: "slice_bound (length xs) (start + n) = min (nat start + nat n) (length xs)"
    using assms by (simp add: slice_bound_def nat_add_distrib)
  show ?thesis
    unfolding py_slice_def s e Let_def
    by (auto simp: min_def)
qed

lemma py_slice_empty_window: "py_slice xs start start = []"
  by (simp add: py_slice_def)

lemma follow_cursors_diverges:
  fixes fetch :: "string option \<Rightarrow> 'e + 'a list \<times> bool \<times> string option"
  assumes step: "\<And>c. I c \<Longrightarrow> \<exists>page nxt. fetch c = Inr (page, True, nxt) \<and> I nxt"
    and start: "I cur"
  shows "follow_cursors fetch cur pages = None"
proof (rule ccontr)
  assume "follow_cursors fetch cur pages \<noteq> None"
  then obtain y where y: "follow_cursors fetch cur pages = Some y" by auto
  have "fetch = fetch \<longrightarrow> I cur \<longrightarrow> False"
  proof (rule follow_cursors.raw_induct
      [where P = "\<lambda>f c ps z. f = fetch \<longrightarrow> I c \<longrightarrow> False", OF _ y])
    fix follow :: "(string option \<Rightarrow> 'e + 'a list \<times> bool \<times> string option)
        \<Rightarrow> string option \<Rightarrow> 'a list list \<Rightarrow> ('e + 'a list list) option"
    fix f c ps z
    assume ih: "\<And>f' c' ps' z'. follow f' c' ps' = Some z' \<Longrightarrow> f' = fetch \<longrightarrow> I c' \<longrightarrow> False"
    assume eq: "(case f c of Inl e \<Rightarrow> Some (Inl e)
                 | Inr (page, more', nxt) \<Rightarrow>
                     if more' then follow f nxt (ps @ [page])
                     else Some (Inr (ps @ [page]))) = Some z"
    show "f = fetch \<longrightarrow> I c \<longrightarrow> False"
    proof (intro impI)
      assume fe: "f = fetch" and ic: "I c"
      from step [OF ic] obtain page nxt
        where f: "fetch c = Inr (page, True, nxt)" and nxt: "I nxt" by blast
      have "follow f nxt (ps @ [page]) = Some z"
        using eq f fe by simp
      then show False
        using ih fe nxt by blast
    qed
  qed
  then show False using start by blast
qed

lemma follow_cursors_last:
  assumes "fetch cur = Inr (page, False, nxt)"
  shows "follow_cursors fetch cur pages = Some (Inr (pages @ [page]))"
  using assms by (subst follow_cursors.simps) simp

lemma follow_cursors_next:
  assumes "fetch cur = Inr (page, True, nxt)"
  shows "follow_cursors fetch cur pages = follow_cursors fetch nxt (pages @ [page])"
  using assms by (subst follow_cursors.simps) simp


lemma follow_cursors_collects:
  fixes fetch :: "string option \<Rightarrow> 'e + 'a list \<times> bool \<times> string option"
    and cur_of :: "nat \<Rightarrow> string option"
  assumes L: "0 < L"
    and step: "\<And>k. k = 0 \<or> k < length xs \<Longrightarrow>
      fetch (cur_of k) =
        Inr (take L (drop k xs), k + L < length xs,
             if k + L < length xs then cur_of (k + L) else None)"
    and k: "k = 0 \<or> k < length xs"
  shows "\<exists>ps. follow_cursors fetch (cur_of k) pages = Some (Inr (pages @ ps))
              \<and> concat ps = drop k xs"
  using k
proof (induction "length xs - k" arbitrary: k pages rule: less_induct)
  case less
  note st = step [OF less.prems]
  show ?case
  proof (cases "k + L < length xs")
    case True
    have nxt: "follow_cursors fetch (cur_of k) pages =
               follow_cursors fetch (cur_of (k + L)) (pages @ [take L (drop k xs)])"
      using st True by (simp add: follow_cursors_next)
    have "length xs - (k + L) < length xs - k"
      using True L by simp
    moreover have "k + L = 0 \<or> k + L < length xs"
      using True by simp
    ultimately obtain ps where
      ps: "follow_cursors fetch (cur_of (k + L)) (pages @ [take L (drop k xs)]) =
             Some (Inr ((pages @ [take L (drop k xs)]) @ ps))"
      and c: "concat ps = drop (k + L) xs"
      using less.hyps by blast
    have "concat (take L (drop k xs) # ps) = drop k xs"
      using c by (simp add: add.commute drop_drop [symmetric] del: drop_drop)
    then show ?thesis
      using nxt ps by (intro exI [of _ "take L (drop k xs) # ps"]) simp
  next
    case False
    have "follow_cursors fetch (cur_of k) pages = Some (Inr (pages @ [take L (drop k xs)]))"
      using st False by (simp add: follow_cursors_last)
    moreover have "take L (drop k xs) = drop k xs"
      using False by simp
    ultimately show ?thesis
      by (intro exI [of _ "[drop k xs]"]) simp
  qed
qed

lemma starting_offset_roundtrip:
  assumes "cursor_roundtrip lib n"
  shows "starting_offset lib (Some (encode_cursor lib (JObject [(''offset'', JInt n)]))) =
           Inr (JInt n)"
  using assms
  by (auto simp: cursor_roundtrip_def encode_cursor_def starting_offset_def decode_cursor_def
      Let_def split: sum.splits)

lemma start_index_of_roundtrip:
  assumes "cursor_roundtrip lib n"
  shows "start_index_of lib (Some (encode_cursor lib (JObject [(''offset'', JInt n)]))) = JInt n"
  using assms
  by (auto simp: cursor_roundtrip_def encode_cursor_def start_index_of_def
      Let_def split: sum.splits)

lemma fetch_page_at:
  assumes "starting_offset lib cur = Inr off" and "as_index off = Some start"
  shows "fetch_page lib ipp xs cur =
           Inr (py_slice xs start (start + ipp), start + ipp < int (length xs),
                if start + ipp < int (length xs)
                then Some (encode_cursor lib (JObject [(''offset'', JInt (start + ipp))]))
                else None)"
  using assms by (simp add: fetch_page_def paginate_def Let_def)

lemma fetch_page_api_at:
  assumes "as_index (start_index_of lib cur) = Some start"
  shows "fetch_page_api lib limit xs cur =
           Inr (py_slice xs start (start + limit), start + limit < int (length xs),
                if start + limit < int (length xs)
                then Some (encode_cursor lib (JObject [(''offset'', JInt (start + limit))]))
                else None)"
  using assms
  by (simp add: fetch_page_api_def paginate_items_def calculate_pagination_def Let_def
      encode_cursor_def)


lemma zero_limit_diverges:
  fixes fetch :: "string option \<Rightarrow> 'e + 'a list \<times> bool \<times> string option"
  assumes first: "\<exists>page. fetch cur = Inr (page, True, Some c)"
    and again: "\<exists>page. fetch (Some c) = Inr (page, True, Some c)"
  shows "follow_cursors fetch cur pages = None"
proof (rule follow_cursors_diverges [where I = "\<lambda>x. x = cur \<or> x = Some c"])
  fix x assume "x = cur \<or> x = Some c"
  then show "\<exists>page nxt. fetch x = Inr (page, True, nxt) \<and> (nxt = cur \<or> nxt = Some c)"
    using first again by auto
qed simp

text \<open>
  Claim C2, as the code has it. For a page size of at least 1, a client that starts without
  a cursor and follows each \<^verbatim>\<open>next_cursor\<close> until \<^verbatim>\<open>has_more\<close> is false comes to an end,
  and the pages it received, concatenated, are the original list: every element once, in
  order. This holds for \<^verbatim>\<open>Paginator.paginate\<close> and for \<^verbatim>\<open>paginate_items\<close> of
  \<^verbatim>\<open>api/utils/pagination.py\<close>, given that the library decodes the cursors the paginator
  issues (those of the offsets from 1 below the length) to what was encoded.
\<close>

theorem pagination_round_trip:
  assumes "1 \<le> L" and "\<forall>n\<in>{1..<length xs}. cursor_roundtrip lib (int n)"
  shows "(\<exists>pages. follow_cursors (fetch_page lib L xs) None [] = Some (Inr pages)
                  \<and> concat pages = xs)
       \<and> (\<exists>pages. follow_cursors (fetch_page_api lib L xs) None [] = Some (Inr pages)
                  \<and> concat pages = xs)"
proof -
  define cur_of :: "nat \<Rightarrow> string option" where
    "cur_of k = (if k = 0 then None
                 else Some (encode_cursor lib (JObject [(''offset'', JInt (int k))])))" for k
  have L: "0 < nat L" using assms(1) by simp
  have nxt: "cur_of (k + nat L) =
               Some (encode_cursor lib (JObject [(''offset'', JInt (int k + L))]))" for k
    using assms(1) by (simp add: cur_of_def)
  have more: "(int k + L < int (length xs)) = (k + nat L < length xs)" for k
    using assms(1) by auto
  have win: "py_slice xs (int k) (int k + L) = take (nat L) (drop k xs)" for k
    using py_slice_window [of "int k" L xs] assms(1) by simp
  have so: "starting_offset lib (cur_of k) = Inr (JInt (int k))"
    if "k = 0 \<or> k < length xs" for k
  proof (cases "k = 0")
    case True
    then show ?thesis by (simp add: cur_of_def starting_offset_def)
  next
    case False
    then have "cursor_roundtrip lib (int k)" using that assms(2) by simp
    then show ?thesis using False by (simp add: cur_of_def starting_offset_roundtrip)
  qed
  have si: "start_index_of lib (cur_of k) = JInt (int k)"
    if "k = 0 \<or> k < length xs" for k
  proof (cases "k = 0")
    case True
    then show ?thesis by (simp add: cur_of_def start_index_of_def)
  next
    case False
    then have "cursor_roundtrip lib (int k)" using that assms(2) by simp
    then show ?thesis using False by (simp add: cur_of_def start_index_of_roundtrip)
  qed
  have step1: "fetch_page lib L xs (cur_of k) =
        Inr (take (nat L) (drop k xs), k + nat L < length xs,
             if k + nat L < length xs then cur_of (k + nat L) else None)"
    if "k = 0 \<or> k < length xs" for k
    using fetch_page_at [OF so [OF that], of "int k" L xs]
    by (simp add: win more nxt)
  have step2: "fetch_page_api lib L xs (cur_of k) =
        Inr (take (nat L) (drop k xs), k + nat L < length xs,
             if k + nat L < length xs then cur_of (k + nat L) else None)"
    if "k = 0 \<or> k < length xs" for k
    using fetch_page_api_at [of lib "cur_of k" "int k" L xs] si [OF that]
    by (simp add: win more nxt)
  have c0: "cur_of 0 = None" by (simp add: cur_of_def)
  from follow_cursors_collects [of "nat L" xs "fetch_page lib L xs" cur_of 0 "[]", OF L step1]
  have A: "\<exists>pages. follow_cursors (fetch_page lib L xs) None [] = Some (Inr pages)
                  \<and> concat pages = xs"
    by (simp add: c0)
  from follow_cursors_collects [of "nat L" xs "fetch_page_api lib L xs" cur_of 0 "[]", OF L step2]
  have B: "\<exists>pages. follow_cursors (fetch_page_api lib L xs) None [] = Some (Inr pages)
                  \<and> concat pages = xs"
    by (simp add: c0)
  from A B show ?thesis by blast
qed

theorem pagination_round_trip_witness:
  "follow_cursors (fetch_page py_lib 2 [10, 20, 30, 40, 50 :: nat]) None []
     = Some (Inr [[10, 20], [30, 40], [50]])
   \<and> (\<exists>pages. follow_cursors (fetch_page_api py_lib 2 [10, 20, 30, 40, 50 :: nat]) None []
                 = Some (Inr pages) \<and> concat pages = [10, 20, 30, 40, 50])"
proof -
  have L: "(1 :: int) \<le> 2" by simp
  have r1: "cursor_roundtrip py_lib 1" by code_simp
  have r2: "cursor_roundtrip py_lib 2" by code_simp
  have r3: "cursor_roundtrip py_lib 3" by code_simp
  have r4: "cursor_roundtrip py_lib 4" by code_simp
  have rt: "\<forall>n\<in>{1..<length [10, 20, 30, 40, 50 :: nat]}. cursor_roundtrip py_lib (int n)"
  proof
    fix n assume "n \<in> {1..<length [10, 20, 30, 40, 50 :: nat]}"
    then have "n = 1 \<or> n = 2 \<or> n = 3 \<or> n = 4" by auto
    then show "cursor_roundtrip py_lib (int n)" using r1 r2 r3 r4 by auto
  qed
  define f where "f = fetch_page py_lib 2 [10, 20, 30, 40, 50 :: nat]"
  have s1: "f None = Inr ([10, 20], True, Some ''eyJvZmZzZXQiOiAyfQ=='')"
    unfolding f_def by code_simp
  have s2: "f (Some ''eyJvZmZzZXQiOiAyfQ=='') = Inr ([30, 40], True, Some ''eyJvZmZzZXQiOiA0fQ=='')"
    unfolding f_def by code_simp
  have s3: "f (Some ''eyJvZmZzZXQiOiA0fQ=='') = Inr ([50], False, None)"
    unfolding f_def by code_simp
  have "follow_cursors f None [] = Some (Inr [[10, 20], [30, 40], [50]])"
    using follow_cursors_next [of f, OF s1, of "[]"]
      follow_cursors_next [of f, OF s2, of "[[10, 20]]"]
      follow_cursors_last [of f, OF s3, of "[[10, 20], [30, 40]]"]
    by simp
  then have a: "follow_cursors (fetch_page py_lib 2 [10, 20, 30, 40, 50 :: nat]) None []
     = Some (Inr [[10, 20], [30, 40], [50]])"
    by (simp add: f_def)
  show ?thesis
    using pagination_round_trip [OF L rt] a by simp
qed

text \<open>
  With a page size of 0 the claim fails: on a list of one element the client receives an
  empty page and a cursor for offset 0 again and again, and never comes to an end.
\<close>

theorem zero_page_size_counterexample:
  "follow_cursors (fetch_page py_lib 0 [10 :: nat]) None [] = None
   \<and> follow_cursors (fetch_page_api py_lib 0 [10 :: nat]) None [] = None"
proof -
  have a: "fetch_page py_lib 0 [10 :: nat] None = Inr ([], True, Some ''eyJvZmZzZXQiOiAwfQ=='')"
    by code_simp
  have b: "fetch_page py_lib 0 [10 :: nat] (Some ''eyJvZmZzZXQiOiAwfQ=='')
            = Inr ([], True, Some ''eyJvZmZzZXQiOiAwfQ=='')"
    by code_simp
  have c: "fetch_page_api py_lib 0 [10 :: nat] None = Inr ([], True, Some ''eyJvZmZzZXQiOiAwfQ=='')"
    by code_simp
  have d: "fetch_page_api py_lib 0 [10 :: nat] (Some ''eyJvZmZzZXQiOiAwfQ=='')
            = Inr ([], True, Some ''eyJvZmZzZXQiOiAwfQ=='')"
    by code_simp
  show ?thesis
    using zero_limit_diverges [of "fetch_page py_lib 0 [10 :: nat]" None _ "[]"]
      zero_limit_diverges [of "fetch_page_api py_lib 0 [10 :: nat]" None _ "[]"] a b c d
    by blast
qed

text \<open>
  Claim C10. With a page size of 0, a call of \<^verbatim>\<open>paginate\<close> at an integer offset below the
  length of the list returns an empty page with \<^verbatim>\<open>has_more\<close> true and a \<^verbatim>\<open>next_cursor\<close>
  that decodes to the same offset, and a client that follows the cursors from there never
  comes to an end. The same holds for \<^verbatim>\<open>paginate_items\<close> of \<^verbatim>\<open>api/utils/pagination.py\<close>.
  The library is assumed to decode the cursor of this offset to what was encoded.
\<close>

theorem zero_limit_no_progress:
  assumes "start < int (length xs)" and "cursor_roundtrip lib start"
  shows "(starting_offset lib cur = Inr off \<and> as_index off = Some start \<longrightarrow>
            paginate lib 0 xs cur =
              Inr \<lparr>items = [], has_more = True,
                   next_cursor = Some (encode_cursor lib (JObject [(''offset'', JInt start)]))\<rparr>
            \<and> starting_offset lib (Some (encode_cursor lib (JObject [(''offset'', JInt start)])))
                = Inr (JInt start)
            \<and> follow_cursors (fetch_page lib 0 xs) cur pages = None)
       \<and> (as_index (start_index_of lib cur) = Some start \<longrightarrow>
            (\<exists>r. paginate_items lib xs 0 cur = Inr r \<and> result_items r = []
                 \<and> meta_has_more (pagination r)
                 \<and> meta_next_cursor (pagination r) =
                     Some (encode_cursor lib (JObject [(''offset'', JInt start)])))
            \<and> start_index_of lib (Some (encode_cursor lib (JObject [(''offset'', JInt start)])))
                = JInt start
            \<and> follow_cursors (fetch_page_api lib 0 xs) cur pages = None)"
proof -
  let ?c = "encode_cursor lib (JObject [(''offset'', JInt start)])"
  have so: "starting_offset lib (Some ?c) = Inr (JInt start)"
    using assms(2) by (rule starting_offset_roundtrip)
  have si: "start_index_of lib (Some ?c) = JInt start"
    using assms(2) by (rule start_index_of_roundtrip)
  have A: "paginate lib 0 xs cur = Inr \<lparr>items = [], has_more = True, next_cursor = Some ?c\<rparr>
           \<and> follow_cursors (fetch_page lib 0 xs) cur pages = None"
    if h: "starting_offset lib cur = Inr off" "as_index off = Some start"
  proof -
    have p: "paginate lib 0 xs cur = Inr \<lparr>items = [], has_more = True, next_cursor = Some ?c\<rparr>"
      using h assms(1) by (simp add: paginate_def Let_def py_slice_empty_window)
    have f1: "\<exists>page. fetch_page lib 0 xs cur = Inr (page, True, Some ?c)"
      using fetch_page_at [OF h, of 0 xs] assms(1) by simp
    have f2: "\<exists>page. fetch_page lib 0 xs (Some ?c) = Inr (page, True, Some ?c)"
      using fetch_page_at [OF so, of start 0 xs] assms(1) by simp
    show ?thesis
      using p zero_limit_diverges [OF f1 f2] by simp
  qed
  have B: "(\<exists>r. paginate_items lib xs 0 cur = Inr r \<and> result_items r = []
                 \<and> meta_has_more (pagination r)
                 \<and> meta_next_cursor (pagination r) = Some ?c)
           \<and> follow_cursors (fetch_page_api lib 0 xs) cur pages = None"
    if h: "as_index (start_index_of lib cur) = Some start"
  proof -
    have p: "\<exists>r. paginate_items lib xs 0 cur = Inr r \<and> result_items r = []
                 \<and> meta_has_more (pagination r)
                 \<and> meta_next_cursor (pagination r) = Some ?c"
      using h assms(1)
      by (simp add: paginate_items_def calculate_pagination_def Let_def py_slice_empty_window
          encode_cursor_def)
    have f1: "\<exists>page. fetch_page_api lib 0 xs cur = Inr (page, True, Some ?c)"
      using fetch_page_api_at [OF h, of 0 xs] assms(1) by simp
    have "as_index (start_index_of lib (Some ?c)) = Some start"
      using si by simp
    from fetch_page_api_at [OF this, of 0 xs]
    have f2: "\<exists>page. fetch_page_api lib 0 xs (Some ?c) = Inr (page, True, Some ?c)"
      using assms(1) by simp
    show ?thesis
      using p zero_limit_diverges [OF f1 f2] by simp
  qed
  show ?thesis
    using A B so si by blast
qed

theorem zero_limit_no_progress_witness:
  "paginate py_lib 0 [10, 20, 30 :: nat] (Some ''eyJvZmZzZXQiOiAxfQ=='') =
     Inr \<lparr>items = [], has_more = True, next_cursor = Some ''eyJvZmZzZXQiOiAxfQ==''\<rparr>
   \<and> follow_cursors (fetch_page py_lib 0 [10, 20, 30 :: nat]) (Some ''eyJvZmZzZXQiOiAxfQ=='') []
       = None
   \<and> follow_cursors (fetch_page_api py_lib 0 [10, 20, 30 :: nat]) (Some ''eyJvZmZzZXQiOiAxfQ=='') []
       = None"
proof -
  have len: "(1 :: int) < int (length [10, 20, 30 :: nat])" by simp
  have rt: "cursor_roundtrip py_lib 1" by code_simp
  have enc: "encode_cursor py_lib (JObject [(''offset'', JInt 1)]) = ''eyJvZmZzZXQiOiAxfQ==''"
    by code_simp
  have so: "starting_offset py_lib (Some ''eyJvZmZzZXQiOiAxfQ=='') = Inr (JInt 1)"
    using starting_offset_roundtrip [OF rt] by (simp add: enc)
  have si: "as_index (start_index_of py_lib (Some ''eyJvZmZzZXQiOiAxfQ=='')) = Some 1"
    using start_index_of_roundtrip [OF rt] by (simp add: enc)
  show ?thesis
    using zero_limit_no_progress [OF len rt, of "Some ''eyJvZmZzZXQiOiAxfQ==''" "JInt 1" "[]"]
      so si by (simp add: enc)
qed

text \<open>
  Claim C7, as the code has it. With a page size of at least 0, \<^verbatim>\<open>paginate\<close> called with a
  cursor whose integer offset is at or beyond the length of the list returns an empty
  page with \<^verbatim>\<open>has_more\<close> false and no next cursor, not an error, in both modules; and a
  cursor that \<^verbatim>\<open>paginate\<close> issues from an offset of at least 0 encodes the offset plus the
  page size, which is at least 0. The sign of a decoded offset is not checked.
\<close>

theorem offset_beyond_length:
  assumes "0 \<le> items_per_page" and "int (length xs) \<le> start"
  shows "(starting_offset lib cur = Inr off \<and> as_index off = Some start \<longrightarrow>
            paginate lib items_per_page xs cur =
              Inr \<lparr>items = [], has_more = False, next_cursor = None\<rparr>)
       \<and> (as_index (start_index_of lib cur) = Some start \<longrightarrow>
            (\<exists>r. paginate_items lib xs items_per_page cur = Inr r \<and> result_items r = []
                 \<and> \<not> meta_has_more (pagination r)
                 \<and> meta_next_cursor (pagination r) = None))
       \<and> (starting_offset lib cur2 = Inr off2 \<and> as_index off2 = Some start2 \<and> 0 \<le> start2
            \<and> paginate lib items_per_page ys cur2 = Inr r2 \<and> next_cursor r2 = Some c
          \<longrightarrow> (\<exists>n\<ge>0. c = encode_cursor lib (JObject [(''offset'', JInt n)])
                     \<and> n = start2 + items_per_page))"
proof -
  have sl: "py_slice xs start (start + items_per_page) = []"
    using assms by (simp add: py_slice_def slice_bound_def)
  have A: "paginate lib items_per_page xs cur =
              Inr \<lparr>items = [], has_more = False, next_cursor = None\<rparr>"
    if "starting_offset lib cur = Inr off" "as_index off = Some start"
    using that assms sl by (simp add: paginate_def Let_def)
  have B: "\<exists>r. paginate_items lib xs items_per_page cur = Inr r \<and> result_items r = []
                 \<and> \<not> meta_has_more (pagination r)
                 \<and> meta_next_cursor (pagination r) = None"
    if "as_index (start_index_of lib cur) = Some start"
    using that assms sl by (simp add: paginate_items_def calculate_pagination_def Let_def)
  have C: "\<exists>n\<ge>0. c = encode_cursor lib (JObject [(''offset'', JInt n)])
                     \<and> n = start2 + items_per_page"
    if "starting_offset lib cur2 = Inr off2" "as_index off2 = Some start2" "0 \<le> start2"
      "paginate lib items_per_page ys cur2 = Inr r2" "next_cursor r2 = Some c"
    using that assms(1) by (auto simp: paginate_def Let_def split: if_splits)
  show ?thesis
    using A B C by blast
qed

theorem offset_beyond_length_witness:
  "paginate py_lib 2 [10, 20, 30 :: nat] (Some ''eyJvZmZzZXQiOiA1fQ=='') =
     Inr \<lparr>items = [], has_more = False, next_cursor = None\<rparr>
   \<and> (\<exists>r. paginate_items py_lib [10, 20, 30 :: nat] 2 (Some ''eyJvZmZzZXQiOiA1fQ=='') = Inr r
           \<and> result_items r = [] \<and> \<not> meta_has_more (pagination r)
           \<and> meta_next_cursor (pagination r) = None)"
proof -
  have ipp: "(0 :: int) \<le> 2" by simp
  have len: "int (length [10, 20, 30 :: nat]) \<le> 5" by simp
  have rt: "cursor_roundtrip py_lib 5" by code_simp
  have enc: "encode_cursor py_lib (JObject [(''offset'', JInt 5)]) = ''eyJvZmZzZXQiOiA1fQ==''"
    by code_simp
  have so: "starting_offset py_lib (Some ''eyJvZmZzZXQiOiA1fQ=='') = Inr (JInt 5)"
    using starting_offset_roundtrip [OF rt] by (simp add: enc)
  have si: "as_index (start_index_of py_lib (Some ''eyJvZmZzZXQiOiA1fQ=='')) = Some 5"
    using start_index_of_roundtrip [OF rt] by (simp add: enc)
  show ?thesis
    using offset_beyond_length [OF ipp len, of py_lib "Some ''eyJvZmZzZXQiOiA1fQ==''" "JInt 5",
        THEN conjunct1]
      offset_beyond_length [OF ipp len, of py_lib "Some ''eyJvZmZzZXQiOiA1fQ==''" "JInt 5",
        THEN conjunct2, THEN conjunct1]
      so si by simp
qed

text \<open>
  A cursor that decodes to the offset -1 is accepted: the page is the slice
  \<^verbatim>\<open>items[-1:1]\<close>, and no error is raised.
\<close>

theorem negative_offset_counterexample:
  "starting_offset py_lib (Some ''eyJvZmZzZXQiOiAtMX0='') = Inr (JInt (- 1))
   \<and> paginate py_lib 2 [10, 20, 30 :: nat] (Some ''eyJvZmZzZXQiOiAtMX0='') =
       Inr \<lparr>items = [], has_more = True, next_cursor = Some ''eyJvZmZzZXQiOiAxfQ==''\<rparr>"
proof -
  have so: "starting_offset py_lib (Some ''eyJvZmZzZXQiOiAtMX0='') = Inr (JInt (- 1))"
    by code_simp
  have enc: "encode_cursor py_lib (JObject [(''offset'', JInt 1)]) = ''eyJvZmZzZXQiOiAxfQ==''"
    by code_simp
  have sl: "py_slice [10, 20, 30 :: nat] (- 1) 1 = []"
    by (simp add: py_slice_def slice_bound_def)
  show ?thesis
    using so enc sl by (simp add: paginate_def Let_def)
qed

text \<open>
  Claim C4, as the code has it. \<^verbatim>\<open>decode_cursor\<close> of the service's module returns the
  parsed value exactly when base64 decoding, byte decoding and JSON parsing all succeed,
  and raises a \<^verbatim>\<open>PaginationError\<close> in every other case. \<^verbatim>\<open>decode_cursor\<close> of
  \<^verbatim>\<open>api/utils/pagination.py\<close> never raises: it returns (0, True) for an absent or empty
  cursor, (0, False) where the service's function raises or the decoded value is not a
  dictionary, and (offset, True) otherwise.
\<close>

theorem decode_cursor_error_handling:
  "(decode_cursor lib c = Inr data \<longleftrightarrow>
      (\<exists>bs json_str. b64decode lib c = Inr bs \<and> bytes_decode lib bs = Inr json_str
                      \<and> json_loads lib json_str = Inr data))
   \<and> ((\<forall>d. decode_cursor lib c \<noteq> Inr d) \<longrightarrow>
        (\<exists>msg. decode_cursor lib c = Inl (PaginationError msg)))
   \<and> decode_cursor_api lib cur =
       (case cur of
          None \<Rightarrow> (JInt 0, True)
        | Some s \<Rightarrow>
            if s = [] then (JInt 0, True)
            else (case decode_cursor lib s of
                    Inl e \<Rightarrow> (JInt 0, False)
                  | Inr cursor_data \<Rightarrow>
                      (case dict_get cursor_data ''offset'' (JInt 0) of
                         Inl e \<Rightarrow> (JInt 0, False)
                       | Inr offset \<Rightarrow> (offset, True))))"
proof -
  have A: "decode_cursor lib c = Inr data \<longleftrightarrow>
      (\<exists>bs json_str. b64decode lib c = Inr bs \<and> bytes_decode lib bs = Inr json_str
                      \<and> json_loads lib json_str = Inr data)"
    by (auto simp: decode_cursor_def split: sum.splits)
  have B: "(\<forall>d. decode_cursor lib c \<noteq> Inr d) \<longrightarrow>
        (\<exists>msg. decode_cursor lib c = Inl (PaginationError msg))"
    by (auto simp: decode_cursor_def split: sum.splits)
  have C: "decode_cursor_api lib cur =
       (case cur of
          None \<Rightarrow> (JInt 0, True)
        | Some s \<Rightarrow>
            if s = [] then (JInt 0, True)
            else (case decode_cursor lib s of
                    Inl e \<Rightarrow> (JInt 0, False)
                  | Inr cursor_data \<Rightarrow>
                      (case dict_get cursor_data ''offset'' (JInt 0) of
                         Inl e \<Rightarrow> (JInt 0, False)
                       | Inr offset \<Rightarrow> (offset, True))))"
    by (simp add: decode_cursor_api_def decode_cursor_def split: option.splits sum.splits)
  from A B C show ?thesis by blast
qed

theorem decode_cursor_error_handling_witness:
  "decode_cursor py_lib ''eyJvZmZzZXQiOiAzfQ=='' = Inr (JObject [(''offset'', JInt 3)])
   \<and> (\<exists>msg. decode_cursor py_lib ''invalid-cursor'' = Inl (PaginationError msg))"
proof -
  have ok: "decode_cursor py_lib ''eyJvZmZzZXQiOiAzfQ=='' = Inr (JObject [(''offset'', JInt 3)])"
    by code_simp
  have bad: "b64decode py_lib ''invalid-cursor'' = Inl ''Invalid base64-encoded string''"
    by code_simp
  have "\<forall>d. decode_cursor py_lib ''invalid-cursor'' \<noteq> Inr d"
    using decode_cursor_error_handling [of py_lib "''invalid-cursor''"] bad by simp
  then show ?thesis
    using decode_cursor_error_handling [of py_lib "''invalid-cursor''"] ok by blast
qed

text \<open>
  \<^verbatim>\<open>decode_cursor\<close> of \<^verbatim>\<open>api/utils/pagination.py\<close> on two strings that are not the base64
  encoding of a JSON document: it returns the default offset 0, flagged invalid for the
  first and valid for the empty string.
\<close>

theorem decode_cursor_api_counterexample:
  "b64decode py_lib ''invalid-cursor'' = Inl ''Invalid base64-encoded string''
   \<and> decode_cursor_api py_lib (Some ''invalid-cursor'') = (JInt 0, False)
   \<and> b64decode py_lib [] = Inr []
   \<and> json_loads py_lib [] = Inl ''Expecting value''
   \<and> decode_cursor_api py_lib (Some []) = (JInt 0, True)"
proof -
  have a: "b64decode py_lib ''invalid-cursor'' = Inl ''Invalid base64-encoded string''"
    by code_simp
  have b: "b64decode py_lib [] = Inr []"
    by code_simp
  have c: "json_loads py_lib [] = Inl ''Expecting value''"
    by code_simp
  show ?thesis
    using a b c by (simp add: decode_cursor_api_def)
qed

section \<open>Properties of the compression and of the validator\<close>

text \<open>
  Claim C6, as the code has it. For each of the encodings br, gzip and deflate, the
  service's \<^verbatim>\<open>compress_content\<close> returns either nothing or the bytes the library produced,
  and then the library decompresses these bytes to the original content: a raised
  exception and a mismatch both give nothing. \<^verbatim>\<open>compress_content\<close> of
  \<^verbatim>\<open>api/middleware/compression.py\<close> returns nothing when the library raises and the
  library's bytes otherwise, without decompressing them.
\<close>

theorem compress_content_verified:
  assumes "encoding \<in> {''br'', ''gzip'', ''deflate''}"
  shows "(compress_content lib level content encoding = None
          \<or> (\<exists>compressed. compress_content lib level content encoding = Some compressed
                \<and> library_compress lib True level content encoding = Inr compressed
                \<and> library_decompress lib encoding compressed = Inr content))
       \<and> ((\<exists>e. library_compress lib True level content encoding = Inl e)
            \<longrightarrow> compress_content lib level content encoding = None)
       \<and> (\<forall>compressed. library_compress lib True level content encoding = Inr compressed
            \<and> library_decompress lib encoding compressed \<noteq> Inr content
            \<longrightarrow> compress_content lib level content encoding = None)
       \<and> compress_content_api lib level content encoding =
           (case library_compress lib False level content encoding of
              Inl e \<Rightarrow> None | Inr compressed \<Rightarrow> Some compressed)"
  using assms
  by (auto simp: compress_content_def compress_content_api_def library_compress_def
      library_decompress_def split: sum.splits)

theorem compress_content_verified_witness:
  "compress_content storing_codecs 6 ''{}'' ''gzip'' = Some (CHR 0x78 # ''{}'')
   \<and> compress_content storing_codecs 6 [] ''deflate'' = Some [CHR 0x78]
   \<and> compress_content storing_codecs 12 ''{}'' ''gzip'' = None
   \<and> compress_content faulty_codecs 6 ''{}'' ''br'' = None"
proof -
  have e: "''gzip'' \<in> {''br'', ''gzip'', ''deflate''}" by simp
  have a: "library_compress storing_codecs True 6 ''{}'' ''gzip'' = Inr (CHR 0x78 # ''{}'')"
    by (simp add: library_compress_def storing_codecs_def store_def)
  have b: "library_decompress storing_codecs ''gzip'' (CHR 0x78 # ''{}'') = Inr ''{}''"
    by (simp add: library_decompress_def storing_codecs_def unstore_def)
  have c: "compress_content storing_codecs 6 ''{}'' ''gzip'' \<noteq> None"
    by (simp add: compress_content_def storing_codecs_def store_def unstore_def)
  have "compress_content storing_codecs 6 ''{}'' ''gzip'' = Some (CHR 0x78 # ''{}'')"
    using compress_content_verified [OF e, of storing_codecs 6 "''{}''"] a c by auto
  moreover have "compress_content storing_codecs 6 [] ''deflate'' = Some [CHR 0x78]"
    by (simp add: compress_content_def storing_codecs_def store_def unstore_def)
  moreover have "compress_content storing_codecs 12 ''{}'' ''gzip'' = None"
    by (simp add: compress_content_def storing_codecs_def store_def unstore_def)
  moreover have "compress_content faulty_codecs 6 ''{}'' ''br'' = None"
    by (simp add: compress_content_def faulty_codecs_def)
  ultimately show ?thesis by simp
qed

text \<open>
  With a library whose output does not decompress to the content, the method of
  \<^verbatim>\<open>api/middleware/compression.py\<close> returns that output; the service's method returns
  nothing.
\<close>

theorem compress_content_api_counterexample:
  "compress_content_api faulty_codecs 6 ''{}'' ''gzip'' = Some ''{}''
   \<and> gzip_decompress faulty_codecs ''{}'' = Inr ''}''
   \<and> compress_content faulty_codecs 6 ''{}'' ''gzip'' = None"
  by (simp add: compress_content_api_def compress_content_def faulty_codecs_def)

lemma str_int_2048: "str_int 2048 = ''2048''"
  by code_simp

lemma urlparse_not_a_url: "urlparse ''not-a-url'' = Inr ([], [])"
  by code_simp

lemma urlparse_ftp: "urlparse ''ftp://x.com'' = Inr (''ftp'', ''x.com'')"
  by code_simp

text \<open>
  Claim C8, as the code has it, with the limits of the claim (2048 characters; http and
  https) and whatever \<^verbatim>\<open>validators.url\<close> answers: \<^verbatim>\<open>validate_url\<close> returns an error for
  \<^verbatim>\<open>not-a-url\<close> and for \<^verbatim>\<open>ftp://x.com\<close>, and the error about the length for \<^verbatim>\<open>https://\<close>
  followed by 3000 letters a; \<^verbatim>\<open>validate_api_key\<close> accepts \<^verbatim>\<open>sk-\<close> followed by 32 letters a,
  and rejects \<^verbatim>\<open>invalid-key\<close>, which has 11 characters, as too short.
\<close>

theorem validator_rejection_table:
  "(\<exists>msg. validate_url validators_url default_validator ''not-a-url'' = Some msg)
   \<and> (\<exists>msg. validate_url validators_url default_validator ''ftp://x.com'' = Some msg)
   \<and> validate_url validators_url default_validator (''https://'' @ replicate 3000 CHR ''a'')
       = Some ''URL length exceeds maximum of 2048 characters''
   \<and> validate_api_key (Some (''sk-'' @ replicate 32 CHR ''a'')) = None
   \<and> validate_api_key (Some ''invalid-key'') = Some ''API key is too short''"
proof -
  have v: "max_url_length default_validator = 2048"
    "allowed_schemes default_validator = [''http'', ''https'']"
    by (simp_all add: default_validator_def RequestValidator_init_def)
  have a: "\<exists>msg. validate_url validators_url default_validator ''not-a-url'' = Some msg"
    by (simp add: validate_url_def v urlparse_not_a_url)
  have b: "\<exists>msg. validate_url validators_url default_validator ''ftp://x.com'' = Some msg"
    by (simp add: validate_url_def v urlparse_ftp)
  have c: "validate_url validators_url default_validator (''https://'' @ replicate 3000 CHR ''a'')
       = Some ''URL length exceeds maximum of 2048 characters''"
    by (simp add: validate_url_def v str_int_2048)
  have al: "is_alnum CHR ''a''"
    by (simp add: is_alnum_def is_lower_def)
  have d: "validate_api_key (Some (''sk-'' @ replicate 32 CHR ''a'')) = None"
    using al by (simp add: validate_api_key_def api_key_pattern_def)
  have e: "validate_api_key (Some ''invalid-key'') = Some ''API key is too short''"
    by (simp add: validate_api_key_def)
  from a b c d e show ?thesis by blast
qed

text \<open>The message for \<^verbatim>\<open>invalid-key\<close> is not the one about the format.\<close>

theorem invalid_key_message_counterexample:
  "validate_api_key (Some ''invalid-key'') \<noteq> Some ''Invalid API key format''
   \<and> validate_api_key (Some ''invalid-key'') = Some ''API key is too short''"
  by (simp add: validate_api_key_def)

end
